theory Spec2Isabelle
  imports Complex_Main "HOL-Library.Sublist"
begin

section \<open>JavaScript values and strings\<close>

text \<open>
  A JavaScript number is a rational here, with \<open>None\<close> for \<open>NaN\<close>. The numbers the
  dispatcher computes on its retry paths (5000 * 1.5^attempt for attempt < 5, powers of
  two) are dyadic and exact as doubles; rounding of doubles beyond 2^53 and of the
  jittered delay is not represented.
\<close>

type_synonym number = "rat option"

text \<open>
  A value as \<open>JSON.parse\<close> delivers it, together with \<open>undefined\<close> (the result of
  reading a property that is not there). An object is an association list read with
  \<open>map_of\<close>.
\<close>

datatype jsval =
    JUndefined
  | JNull
  | JBool bool
  | JNum rat
  | JStr string
  | JArr "jsval list"
  | JObj "(string \<times> jsval) list"

text \<open>Truthiness, as \<open>if (content)\<close> tests it.\<close>

fun truthy :: "jsval \<Rightarrow> bool" where
  "truthy JUndefined = False"
| "truthy JNull = False"
| "truthy (JBool b) = b"
| "truthy (JNum n) = (n \<noteq> 0)"
| "truthy (JStr s) = (s \<noteq> [])"
| "truthy (JArr xs) = True"
| "truthy (JObj kvs) = True"

text \<open>
  \<open>v.name\<close>: a TypeError (\<open>None\<close>) on \<open>null\<close> and \<open>undefined\<close>; the own property of
  an object; \<open>undefined\<close> on every other value, for the property names the source
  reads (message, choices, delta, content, id, model, index, role, finish_reason).
\<close>

fun get_prop :: "jsval \<Rightarrow> string \<Rightarrow> jsval option" where
  "get_prop JUndefined name = None"
| "get_prop JNull name = None"
| "get_prop (JObj kvs) name = Some (case map_of kvs name of None \<Rightarrow> JUndefined | Some v \<Rightarrow> v)"
| "get_prop v name = Some JUndefined"

text \<open>\<open>v?.name\<close>: \<open>undefined\<close> on \<open>null\<close> and \<open>undefined\<close>, otherwise \<open>v.name\<close>.\<close>

definition opt_prop :: "jsval \<Rightarrow> string \<Rightarrow> jsval" where
  "opt_prop v name = (case get_prop v name of None \<Rightarrow> JUndefined | Some x \<Rightarrow> x)"

text \<open>\<open>v?.[0]\<close>: the first element of an array, the first character of a string, the
  property \<open>"0"\<close> of an object.\<close>

fun opt_index0 :: "jsval \<Rightarrow> jsval" where
  "opt_index0 (JArr xs) = (case xs of [] \<Rightarrow> JUndefined | x # _ \<Rightarrow> x)"
| "opt_index0 (JStr s) = (case s of [] \<Rightarrow> JUndefined | c # _ \<Rightarrow> JStr [c])"
| "opt_index0 (JObj kvs) = (case map_of kvs ''0'' of None \<Rightarrow> JUndefined | Some v \<Rightarrow> v)"
| "opt_index0 v = JUndefined"

text \<open>\<open>String.prototype.startsWith\<close> and \<open>String.prototype.includes\<close>.\<close>

definition startsWith :: "string \<Rightarrow> string \<Rightarrow> bool" where
  "startsWith s t = (take (length t) s = t)"

fun str_includes :: "string \<Rightarrow> string \<Rightarrow> bool" where
  "str_includes [] t = (t = [])"
| "str_includes (c # cs) t = (startsWith (c # cs) t \<or> str_includes cs t)"

text \<open>ASCII case mapping, as header names and provider names need it.\<close>

definition toLowerCase_char :: "char \<Rightarrow> char" where
  "toLowerCase_char c =
     (let n = (of_char c :: nat) in if 65 \<le> n \<and> n \<le> 90 then char_of (n + 32) else c)"

definition toUpperCase_char :: "char \<Rightarrow> char" where
  "toUpperCase_char c =
     (let n = (of_char c :: nat) in if 97 \<le> n \<and> n \<le> 122 then char_of (n - 32) else c)"

definition toLowerCase :: "string \<Rightarrow> string" where
  "toLowerCase s = map toLowerCase_char s"

definition toUpperCase :: "string \<Rightarrow> string" where
  "toUpperCase s = map toUpperCase_char s"

text \<open>White space of \<open>parseInt\<close> and \<open>trim\<close> among the first 256 code points.\<close>

definition isWhiteSpace :: "char \<Rightarrow> bool" where
  "isWhiteSpace c = ((of_char c :: nat) \<in> {9, 10, 11, 12, 13, 32, 160})"

definition trim :: "string \<Rightarrow> string" where
  "trim s = rev (dropWhile isWhiteSpace (rev (dropWhile isWhiteSpace s)))"

text \<open>The value of a digit in \<open>parseInt\<close>, for radix 10 and 16.\<close>

definition digitValue :: "char \<Rightarrow> nat option" where
  "digitValue c =
     (let n = (of_char c :: nat) in
      if 48 \<le> n \<and> n \<le> 57 then Some (n - 48)
      else if 97 \<le> n \<and> n \<le> 102 then Some (n - 87)
      else if 65 \<le> n \<and> n \<le> 70 then Some (n - 55)
      else None)"

definition isDigitIn :: "nat \<Rightarrow> char \<Rightarrow> bool" where
  "isDigitIn radix c = (case digitValue c of None \<Rightarrow> False | Some d \<Rightarrow> d < radix)"

definition digitsValue :: "nat \<Rightarrow> string \<Rightarrow> nat" where
  "digitsValue radix ds =
     foldl (\<lambda>acc c. acc * radix + (case digitValue c of None \<Rightarrow> 0 | Some d \<Rightarrow> d)) 0 ds"

text \<open>
  \<open>parseInt(str)\<close> without a radix: leading white space, a sign, a \<open>0x\<close> prefix that
  selects radix 16, then the longest run of digits; \<open>NaN\<close> when there is none.
\<close>

definition parseInt :: "string \<Rightarrow> number" where
  "parseInt str =
     (let s = dropWhile isWhiteSpace str;
          neg = (take 1 s = ''-'');
          s1 = (if take 1 s = ''-'' \<or> take 1 s = ''+'' then drop 1 s else s);
          hex = (take 2 s1 = ''0x'' \<or> take 2 s1 = ''0X'');
          radix = (if hex then 16 else 10);
          s2 = (if hex then drop 2 s1 else s1);
          ds = takeWhile (isDigitIn radix) s2
      in if ds = [] then None
         else Some (if neg then - of_nat (digitsValue radix ds) else of_nat (digitsValue radix ds)))"

section \<open>Responses and headers\<close>

text \<open>
  A \<open>Headers\<close> object is its header list. \<open>get\<close> compares names without regard to
  case, joins the values of all matching headers with a comma and a space, and returns
  \<open>null\<close> (\<open>None\<close>) when no header matches.
\<close>

type_synonym headers = "(string \<times> string) list"

fun join_values :: "string list \<Rightarrow> string" where
  "join_values [] = []"
| "join_values [v] = v"
| "join_values (v # vs) = v @ '', '' @ join_values vs"

definition headers_get :: "headers \<Rightarrow> string \<Rightarrow> string option" where
  "headers_get hs name =
     (case filter (\<lambda>kv. toLowerCase (fst kv) = toLowerCase name) hs of
        [] \<Rightarrow> None
      | kvs \<Rightarrow> Some (join_values (map snd kvs)))"

text \<open>\<open>a || b\<close> on two results of \<open>get\<close>: \<open>null\<close> and the empty string are falsy.\<close>

definition or_else :: "string option \<Rightarrow> string option \<Rightarrow> string option" where
  "or_else a b = (case a of None \<Rightarrow> b | Some s \<Rightarrow> if s = [] then b else Some s)"

text \<open>
  A response: its status, its headers, and its body, \<open>None\<close> for a \<open>null\<close> body and
  otherwise the decoded text of each read the body stream delivers, in order.
\<close>

record response =
  status :: nat
  headers :: headers
  body :: "string list option"

definition ok :: "response \<Rightarrow> bool" where
  "ok r = (200 \<le> status r \<and> status r \<le> 299)"

text \<open>The text \<open>response.json()\<close> and \<open>response.text()\<close> read: empty for a null body.\<close>

definition body_text :: "response \<Rightarrow> string" where
  "body_text r = (case body r of None \<Rightarrow> [] | Some reads \<Rightarrow> concat reads)"

section \<open>The world outside the program\<close>

text \<open>
  Everything the program reads from outside is a field of the world: the response (or
  the rejection, \<open>None\<close>) of the n-th call of \<open>fetch\<close> at a URL, the n-th values of
  \<open>Math.random()\<close> and \<open>Date.now()\<close>, the process environment, and \<open>JSON.parse\<close>
  (\<open>None\<close> when it throws a SyntaxError). The request options do not enter the
  control flow of the dispatcher and are left out.
\<close>

record world =
  fetch_at :: "nat \<Rightarrow> string \<Rightarrow> response option"
  random_at :: "nat \<Rightarrow> rat"
  now_at :: "nat \<Rightarrow> rat"
  process_env :: "string \<Rightarrow> string option"
  JSON_parse :: "string \<Rightarrow> jsval option"

definition response_json :: "world \<Rightarrow> response \<Rightarrow> jsval option" where
  "response_json w r = JSON_parse w (body_text r)"

section \<open>Rate-limit tracking\<close>

record RateLimitInfo =
  limit :: number
  remaining :: number
  reset :: number

type_synonym rate_limits = "string \<rightharpoonup> RateLimitInfo"

definition times1000 :: "number \<Rightarrow> number" where
  "times1000 n = map_option (\<lambda>x. x * 1000) n"

definition parseRateLimitHeaders :: "rat \<Rightarrow> headers \<Rightarrow> string \<Rightarrow> rate_limits \<Rightarrow> rate_limits" where
  "parseRateLimitHeaders now hs provider rateLimits =
     (let limit_h = or_else (headers_get hs ''x-ratelimit-limit'') (headers_get hs ''X-RateLimit-Limit'');
          remaining_h = or_else (headers_get hs ''x-ratelimit-remaining'') (headers_get hs ''X-RateLimit-Remaining'');
          reset_h = or_else (headers_get hs ''x-ratelimit-reset'') (headers_get hs ''X-RateLimit-Reset'')
      in case limit_h of
           None \<Rightarrow> rateLimits
         | Some l \<Rightarrow>
            (case remaining_h of
               None \<Rightarrow> rateLimits
             | Some r \<Rightarrow>
                 if l \<noteq> [] \<and> r \<noteq> [] then
                   rateLimits(provider \<mapsto>
                     \<lparr> limit = parseInt l,
                       remaining = parseInt r,
                       reset = (case reset_h of
                                  None \<Rightarrow> Some (now + 60000)
                                | Some t \<Rightarrow> if t \<noteq> [] then times1000 (parseInt t)
                                           else Some (now + 60000)) \<rparr>)
                 else rateLimits))"

section \<open>Retry logic with exponential backoff\<close>

definition RETRY_STATUS_CODES :: "nat list" where
  "RETRY_STATUS_CODES = [429, 500, 502, 503, 504]"

definition MAX_RETRIES :: nat where
  "MAX_RETRIES = 3"

text \<open>
  What one logical dispatch leaves behind: the number of calls of \<open>fetch\<close> made so
  far, the arguments of \<open>sleep\<close> in order, and the rate-limit map.
\<close>

record dispatch_state =
  calls :: nat
  slept :: "number list"
  rateLimits :: rate_limits

text \<open>
  \<open>error.message?.includes(t)\<close>: \<open>None\<close> is a TypeError (\<open>error\<close> is \<open>null\<close>, or the
  message has no method \<open>includes\<close>); a string is searched for the substring, an
  array for an element equal to the string.
\<close>

definition message_includes :: "jsval \<Rightarrow> string \<Rightarrow> bool option" where
  "message_includes error t =
     (case get_prop error ''message'' of
        None \<Rightarrow> None
      | Some m \<Rightarrow>
         (case m of
            JUndefined \<Rightarrow> Some False
          | JNull \<Rightarrow> Some False
          | JStr s \<Rightarrow> Some (str_includes s t)
          | JArr xs \<Rightarrow> Some (JStr t \<in> set xs)
          | _ \<Rightarrow> None))"

text \<open>\<open>error.message?.includes('Cold') || error.message?.includes('Not Ready')\<close>\<close>

definition cold_message :: "jsval \<Rightarrow> bool option" where
  "cold_message error =
     (case message_includes error ''Cold'' of
        None \<Rightarrow> None
      | Some b \<Rightarrow> if b then Some True else message_includes error ''Not Ready'')"

text \<open>
  The condition of the inner \<open>if\<close> of the Featherless branch, with the \<open>try\<close> around
  it: a body that is not JSON, or a TypeError, ends in the \<open>catch\<close> and counts as no
  marker.
\<close>

definition cold_body :: "world \<Rightarrow> response \<Rightarrow> bool" where
  "cold_body w response =
     (case response_json w response of
        None \<Rightarrow> False
      | Some error \<Rightarrow> cold_message error = Some True)"

text \<open>
  \<open>fetchWithRetry(url, options, provider, attempt)\<close>. The result is the response the
  promise resolves to, or \<open>None\<close> when \<open>fetch\<close> rejects and the promise with it.
\<close>

function fetchWithRetry ::
  "world \<Rightarrow> string \<Rightarrow> string \<Rightarrow> nat \<Rightarrow> dispatch_state \<Rightarrow> response option \<times> dispatch_state" where
  "fetchWithRetry w url provider attempt s =
     (case fetch_at w (calls s) url of
        None \<Rightarrow> (None, s\<lparr>calls := Suc (calls s)\<rparr>)
      | Some response \<Rightarrow>
         (let s1 = s\<lparr>calls := Suc (calls s),
                      rateLimits := parseRateLimitHeaders (now_at w (calls s)) (headers response)
                                      provider (rateLimits s)\<rparr>
          in if provider = ''featherless'' \<and> status response = 400 then
               (if cold_body w response \<and> attempt < 5 then
                  fetchWithRetry w url provider (attempt + 1)
                    (s1\<lparr>slept := slept s1 @ [Some (min 30000 (5000 * (3 / 2) ^ attempt))]\<rparr>)
                else (Some response, s1))
             else if provider = ''huggingface'' \<and> status response = 502 \<and> attempt < MAX_RETRIES then
               fetchWithRetry w url provider (attempt + 1)
                 (s1\<lparr>slept := slept s1 @ [Some (5000 * 2 ^ attempt)]\<rparr>)
             else if status response \<in> set RETRY_STATUS_CODES \<and> attempt < MAX_RETRIES then
               (let retryAfter = headers_get (headers response) ''Retry-After'';
                    delay = (case retryAfter of
                               None \<Rightarrow> Some (min (1000 * 2 ^ attempt * (1 / 2 + random_at w (calls s))) 30000)
                             | Some ra \<Rightarrow>
                                 if ra \<noteq> [] then times1000 (parseInt ra)
                                 else Some (min (1000 * 2 ^ attempt * (1 / 2 + random_at w (calls s))) 30000))
                in fetchWithRetry w url provider (attempt + 1) (s1\<lparr>slept := slept s1 @ [delay]\<rparr>))
             else (Some response, s1)))"
  by pat_completeness auto
termination
  by (relation "measure (\<lambda>(w, url, provider, attempt, s). 5 - attempt)")
     (auto simp: MAX_RETRIES_def)


declare fetchWithRetry.simps [simp del]

section \<open>Provider configuration\<close>

text \<open>
  The base URL of each entry of \<open>PROVIDERS\<close>; \<open>None\<close> where the table has no entry.
  Names that JavaScript would find on \<open>Object.prototype\<close> are not considered.
\<close>

definition PROVIDERS :: "string \<Rightarrow> string option" where
  "PROVIDERS = map_of
     [(''openrouter'', ''https://openrouter.ai/api/v1''),
      (''huggingface'', ''https://router.huggingface.co/v1''),
      (''featherless'', ''https://api.featherless.ai/v1''),
      (''venice'', ''https://api.venice.ai/api/v1''),
      (''together'', ''https://api.together.xyz/v1'')]"

definition envKey :: "string \<Rightarrow> string" where
  "envKey provider =
     (if provider = ''huggingface'' then ''HF_TOKEN'' else toUpperCase provider @ ''_API_KEY'')"

text \<open>\<open>!!process.env[envKey]\<close>: the variable is set and not empty.\<close>

definition configured :: "world \<Rightarrow> string \<Rightarrow> bool" where
  "configured w provider =
     (case process_env w (envKey provider) of None \<Rightarrow> False | Some v \<Rightarrow> v \<noteq> [])"

section \<open>Chat completions route of the server\<close>

text \<open>
  What the route answers: the 400 for an unknown provider; the upstream status with the
  upstream text, the provider and whether the hint is set; the event stream, as the
  chunks pushed in order; the decoded JSON; the 500 of the \<open>catch\<close>.
\<close>

datatype chat_reply =
    UnknownProvider string
  | UpstreamFailure nat string string bool
  | EventStream string "string list"
  | JsonBody jsval
  | RequestFailed string

text \<open>
  The \<open>read\<close> callback of the piped stream, offered one upstream chunk: the chunk is
  pushed unless it contains the keep-alive marker. The route offers every upstream
  chunk to the callback once, in order.
\<close>

definition read_push :: "string \<Rightarrow> string option" where
  "read_push chunk =
     (if \<not> str_includes chunk '': OPENROUTER PROCESSING'' then Some chunk else None)"

text \<open>
  The route, from the provider name and \<open>req.body.stream === true\<close> on.
  \<open>isStreaming && response.body\<close> is the body when the flag is set and the body is
  there; otherwise the route decodes JSON.
\<close>

definition chat_completions ::
  "world \<Rightarrow> string \<Rightarrow> bool \<Rightarrow> dispatch_state \<Rightarrow> chat_reply \<times> dispatch_state" where
  "chat_completions w provider isStreaming s =
     (case PROVIDERS provider of
        None \<Rightarrow> (UnknownProvider provider, s)
      | Some baseUrl \<Rightarrow>
         (case fetchWithRetry w (baseUrl @ ''/chat/completions'') provider 0 s of
            (None, s') \<Rightarrow> (RequestFailed provider, s')
          | (Some response, s') \<Rightarrow>
              if \<not> ok response then
                (UpstreamFailure (status response) (body_text response) provider
                   (status response = 400 \<and> provider = ''featherless''), s')
              else
                (case (if isStreaming then body response else None) of
                   Some reads \<Rightarrow> (EventStream provider (List.map_filter read_push reads), s')
                 | None \<Rightarrow>
                    (case response_json w response of
                       None \<Rightarrow> (RequestFailed provider, s')
                     | Some data \<Rightarrow> (JsonBody data, s')))))"

section \<open>HuggingFace to Featherless routing\<close>

text \<open>The rewrite of \<open>req.body.model\<close> at the head of the route, for a string.\<close>

definition featherless_ai_model :: "string \<Rightarrow> string" where
  "featherless_ai_model model =
     (if \<not> str_includes model '':featherless-ai'' then model @ '':featherless-ai'' else model)"

section \<open>Provider failover\<close>

definition FAILOVER_CHAINS :: "string \<Rightarrow> (string \<times> string) list option" where
  "FAILOVER_CHAINS = map_of
     [(''gpt-4-class'',
         [(''openrouter'', ''openai/gpt-4o''),
          (''together'', ''meta-llama/Llama-3.3-70B-Instruct-Turbo'')]),
      (''claude-class'',
         [(''openrouter'', ''anthropic/claude-3-sonnet''),
          (''venice'', ''qwen3-235b'')]),
      (''llama-70b-class'',
         [(''together'', ''meta-llama/Llama-3.3-70B-Instruct-Turbo''),
          (''featherless'', ''meta-llama/Meta-Llama-3.1-70B-Instruct''),
          (''openrouter'', ''meta-llama/llama-3.1-70b-instruct'')])]"

text \<open>
  What the failover route answers: the 400 for an unknown model class; the data of the
  entry that served, tagged with its provider and model; the 503 with its error text.
\<close>

datatype failover_reply =
    UnknownModelClass string
  | Served jsval string string
  | ServiceUnavailable string

text \<open>
  The body of the \<open>for\<close> loop for one entry: \<open>Some data\<close> when the entry serves the
  request, \<open>None\<close> when the loop goes on to the next entry (no configuration, no
  credentials, a rejected dispatch or a body that is not JSON caught by the \<open>catch\<close>,
  a response that is not ok).
\<close>

definition try_entry :: "world \<Rightarrow> string \<times> string \<Rightarrow> dispatch_state \<Rightarrow> jsval option \<times> dispatch_state" where
  "try_entry w entry s =
     (case PROVIDERS (fst entry) of
        None \<Rightarrow> (None, s)
      | Some baseUrl \<Rightarrow>
          if \<not> configured w (fst entry) then (None, s)
          else
            (case fetchWithRetry w (baseUrl @ ''/chat/completions'') (fst entry) 0 s of
               (None, s') \<Rightarrow> (None, s')
             | (Some response, s') \<Rightarrow>
                 if ok response then (response_json w response, s') else (None, s')))"

fun failover_loop ::
  "world \<Rightarrow> (string \<times> string) list \<Rightarrow> dispatch_state \<Rightarrow> failover_reply \<times> dispatch_state" where
  "failover_loop w [] s = (ServiceUnavailable ''All providers in failover chain failed'', s)"
| "failover_loop w (entry # chain) s =
     (case try_entry w entry s of
        (Some data, s') \<Rightarrow> (Served data (fst entry) (snd entry), s')
      | (None, s') \<Rightarrow> failover_loop w chain s')"

definition failover_chat_completions ::
  "world \<Rightarrow> string \<Rightarrow> dispatch_state \<Rightarrow> failover_reply \<times> dispatch_state" where
  "failover_chat_completions w modelClass s =
     (case FAILOVER_CHAINS modelClass of
        None \<Rightarrow> (UnknownModelClass modelClass, s)
      | Some chain \<Rightarrow> failover_loop w chain s)"

section \<open>Stream normalizer of the frontend\<close>

text \<open>
  Text is a list of code units below 256; the reads of a body are the texts the
  streaming \<open>TextDecoder\<close> returns for them, in order.

  \<open>buffer.split('\n')\<close>: never empty, the last element is the text after the last
  newline.
\<close>

fun split_newline :: "string \<Rightarrow> string list" where
  "split_newline [] = [[]]"
| "split_newline (c # cs) =
     (if c = CHR 0x0A then [] # split_newline cs
      else (case split_newline cs of [] \<Rightarrow> [[c]] | l # ls \<Rightarrow> (c # l) # ls))"

text \<open>\<open>parsed.choices?.[0]?.delta?.content\<close>; \<open>None\<close> is the TypeError on \<open>null\<close>.\<close>

definition delta_content :: "jsval \<Rightarrow> jsval option" where
  "delta_content parsed =
     (case get_prop parsed ''choices'' of
        None \<Rightarrow> None
      | Some choices \<Rightarrow> Some (opt_prop (opt_prop (opt_index0 choices) ''delta'') ''content''))"

text \<open>The \<open>try\<close> block of a data line: what it yields, nothing when it ends in the \<open>catch\<close>.\<close>

definition yield_of_data :: "world \<Rightarrow> string \<Rightarrow> jsval list" where
  "yield_of_data w data =
     (case JSON_parse w data of
        None \<Rightarrow> []
      | Some parsed \<Rightarrow>
         (case delta_content parsed of
            None \<Rightarrow> []
          | Some content \<Rightarrow> if truthy content then [content] else []))"

text \<open>
  The \<open>for\<close> loop over the complete lines of one read: the values yielded, and whether
  the generator returned at the sentinel.
\<close>

fun for_lines :: "world \<Rightarrow> string list \<Rightarrow> jsval list \<times> bool" where
  "for_lines w [] = ([], False)"
| "for_lines w (line # lines) =
     (if startsWith line '': OPENROUTER'' then for_lines w lines
      else if startsWith line ''data: '' then
        (if drop 6 line = ''[DONE]'' then ([], True)
         else (case for_lines w lines of
                 (ys, returned) \<Rightarrow> (yield_of_data w (drop 6 line) @ ys, returned)))
      else for_lines w lines)"

text \<open>The \<open>while (true)\<close> loop: the buffer and the reads still to come.\<close>

fun read_loop :: "world \<Rightarrow> string \<Rightarrow> string list \<Rightarrow> jsval list" where
  "read_loop w buffer [] = []"
| "read_loop w buffer (chunk # reads) =
     (case for_lines w (butlast (split_newline (buffer @ chunk))) of
        (ys, returned) \<Rightarrow>
          if returned then ys
          else ys @ read_loop w (last (split_newline (buffer @ chunk))) reads)"

text \<open>
  The errors \<open>chatStream\<close> throws: \<open>new Error(err.error)\<close>, the default message with
  the status, the TypeError of reading \<open>error\<close> from \<open>null\<close>, and 'No response body'.
\<close>

datatype api_error =
    ErrorOf jsval
  | StreamFailed nat
  | TypeError
  | NoResponseBody

text \<open>\<open>chatStream\<close> of lib/api.ts, from the response of its \<open>fetch\<close> on.\<close>

definition chatStream :: "world \<Rightarrow> response \<Rightarrow> api_error + jsval list" where
  "chatStream w res =
     (if \<not> ok res then
        (case get_prop (case response_json w res of None \<Rightarrow> JObj [] | Some err \<Rightarrow> err) ''error'' of
           None \<Rightarrow> Inl TypeError
         | Some e \<Rightarrow> if truthy e then Inl (ErrorOf e) else Inl (StreamFailed (status res)))
      else
        (case body res of
           None \<Rightarrow> Inl NoResponseBody
         | Some reads \<Rightarrow> Inr (read_loop w [] reads)))"

section \<open>Stream normalizer of the Featherless adapter\<close>

record chunk_choice =
  choice_index :: jsval
  choice_role :: jsval
  choice_content :: jsval
  choice_finishReason :: jsval

record ChatCompletionChunk =
  chunk_id :: jsval
  chunk_provider :: string
  chunk_model :: jsval
  chunk_choices :: "chunk_choice list"

text \<open>The callback of \<open>data.choices.map\<close>; \<open>None\<close> is a TypeError.\<close>

definition map_choice :: "jsval \<Rightarrow> chunk_choice option" where
  "map_choice choice =
     (case get_prop choice ''index'' of
        None \<Rightarrow> None
      | Some i \<Rightarrow>
         (case get_prop choice ''delta'' of
            None \<Rightarrow> None
          | Some delta \<Rightarrow>
             (case get_prop delta ''role'' of
                None \<Rightarrow> None
              | Some role \<Rightarrow>
                 (case get_prop delta ''content'' of
                    None \<Rightarrow> None
                  | Some content \<Rightarrow>
                     (case get_prop choice ''finish_reason'' of
                        None \<Rightarrow> None
                      | Some fr \<Rightarrow>
                          Some \<lparr> choice_index = i, choice_role = role,
                                 choice_content = content, choice_finishReason = fr \<rparr>)))))"

text \<open>The object the adapter yields for a parsed record; \<open>None\<close> is a TypeError
  (\<open>data\<close> is \<open>null\<close>, \<open>data.choices\<close> is no array, or the callback throws).\<close>

definition to_chunk :: "jsval \<Rightarrow> ChatCompletionChunk option" where
  "to_chunk data =
     (case get_prop data ''id'' of
        None \<Rightarrow> None
      | Some i \<Rightarrow>
         (case get_prop data ''model'' of
            None \<Rightarrow> None
          | Some m \<Rightarrow>
             (case get_prop data ''choices'' of
                Some (JArr cs) \<Rightarrow>
                  (case those (map map_choice cs) of
                     None \<Rightarrow> None
                   | Some chs \<Rightarrow>
                       Some \<lparr> chunk_id = i, chunk_provider = ''featherless'',
                              chunk_model = m, chunk_choices = chs \<rparr>)
              | _ \<Rightarrow> None)))"

text \<open>The \<open>for\<close> loop over the complete lines of one read; no line ends the loop.\<close>

fun featherless_lines :: "world \<Rightarrow> string list \<Rightarrow> ChatCompletionChunk list" where
  "featherless_lines w [] = []"
| "featherless_lines w (line # lines) =
     (if trim line = [] \<or> trim line = ''data: [DONE]'' then featherless_lines w lines
      else if \<not> startsWith (trim line) ''data: '' then featherless_lines w lines
      else
        (case JSON_parse w (drop 6 (trim line)) of
           None \<Rightarrow> []
         | Some data \<Rightarrow> (case to_chunk data of None \<Rightarrow> [] | Some c \<Rightarrow> [c]))
        @ featherless_lines w lines)"

fun featherless_read_loop :: "world \<Rightarrow> string \<Rightarrow> string list \<Rightarrow> ChatCompletionChunk list" where
  "featherless_read_loop w buffer [] = []"
| "featherless_read_loop w buffer (chunk # reads) =
     featherless_lines w (butlast (split_newline (buffer @ chunk)))
     @ featherless_read_loop w (last (split_newline (buffer @ chunk))) reads"

text \<open>
  The errors the adapter throws through \<open>createError\<close> (of base.ts, which is not among
  the sources): the one for a status that is not ok, kept as its status, and the one
  for a missing body.
\<close>

datatype adapter_error =
    HttpError nat
  | NoResponseBodyForStreaming

text \<open>\<open>FeatherlessProvider.chatStream\<close>, from the response of its \<open>fetch\<close> on.\<close>

definition featherless_chatStream ::
  "world \<Rightarrow> response \<Rightarrow> adapter_error + ChatCompletionChunk list" where
  "featherless_chatStream w response =
     (if \<not> ok response then Inl (HttpError (status response))
      else
        (case body response of
           None \<Rightarrow> Inl NoResponseBodyForStreaming
         | Some reads \<Rightarrow> Inr (featherless_read_loop w [] reads)))"


section \<open>Auxiliary definitions for the proofs\<close>

text \<open>The state after a response has been received and its rate-limit headers recorded.\<close>

definition after_response :: "world \<Rightarrow> string \<Rightarrow> response \<Rightarrow> dispatch_state \<Rightarrow> dispatch_state" where
  "after_response w provider response s =
     s\<lparr>calls := Suc (calls s),
       rateLimits := parseRateLimitHeaders (now_at w (calls s)) (headers response)
                       provider (rateLimits s)\<rparr>"

definition sleep :: "number \<Rightarrow> dispatch_state \<Rightarrow> dispatch_state" where
  "sleep d s = s\<lparr>slept := slept s @ [d]\<rparr>"

text \<open>The delay of the standard retry branch, at call number \<open>n\<close>.\<close>

definition generic_delay :: "world \<Rightarrow> nat \<Rightarrow> nat \<Rightarrow> response \<Rightarrow> number" where
  "generic_delay w attempt n response =
     (case headers_get (headers response) ''Retry-After'' of
        None \<Rightarrow> Some (min (1000 * 2 ^ attempt * (1 / 2 + random_at w n)) 30000)
      | Some ra \<Rightarrow>
          if ra \<noteq> [] then times1000 (parseInt ra)
          else Some (min (1000 * 2 ^ attempt * (1 / 2 + random_at w n)) 30000))"

text \<open>
  The branch \<open>fetchWithRetry\<close> takes on a response: \<open>Some d\<close> when it sleeps \<open>d\<close> and
  calls itself, \<open>None\<close> when it returns the response. Lemmas
  \<open>fetchWithRetry_return\<close> and \<open>fetchWithRetry_retry\<close> tie it to the function.
\<close>

definition retry_delay :: "world \<Rightarrow> string \<Rightarrow> nat \<Rightarrow> nat \<Rightarrow> response \<Rightarrow> number option" where
  "retry_delay w provider attempt n response =
     (if provider = ''featherless'' \<and> status response = 400 then
        (if cold_body w response \<and> attempt < 5
         then Some (Some (min 30000 (5000 * (3 / 2) ^ attempt))) else None)
      else if provider = ''huggingface'' \<and> status response = 502 \<and> attempt < MAX_RETRIES then
        Some (Some (5000 * 2 ^ attempt))
      else if status response \<in> set RETRY_STATUS_CODES \<and> attempt < MAX_RETRIES then
        Some (generic_delay w attempt n response)
      else None)"

text \<open>The number of positions of \<open>s\<close> at which \<open>t\<close> occurs.\<close>

fun occurrences :: "string \<Rightarrow> string \<Rightarrow> nat" where
  "occurrences [] t = (if t = [] then 1 else 0)"
| "occurrences (c # cs) t = (if startsWith (c # cs) t then 1 else 0) + occurrences cs t"

text \<open>The complete lines of a text: all but the last element of the split.\<close>

definition complete_lines :: "string \<Rightarrow> string list" where
  "complete_lines text = butlast (split_newline text)"

text \<open>The state before entry \<open>i\<close> of a chain is tried, when no earlier entry served.\<close>

definition state_before :: "world \<Rightarrow> (string \<times> string) list \<Rightarrow> dispatch_state \<Rightarrow> nat \<Rightarrow> dispatch_state" where
  "state_before w chain s i = foldl (\<lambda>st entry. snd (try_entry w entry st)) s (take i chain)"

text \<open>
  The cold-start marker as the specification words it: a substring match without
  regard to case, against the two terms of the source.
\<close>

definition spec_cold_marker :: "string \<Rightarrow> bool" where
  "spec_cold_marker message =
     (str_includes (toLowerCase message) (toLowerCase ''Cold'')
      \<or> str_includes (toLowerCase message) (toLowerCase ''Not Ready''))"

section \<open>Example inputs\<close>

text \<open>\<open>JSON.parse\<close> on the documents the examples use; it throws on every other text.\<close>

definition example_parse :: \<open>string \<Rightarrow> jsval option\<close> where
  \<open>example_parse = map_of
     [(''{"message":"Model is Cold"}'', JObj [(''message'', JStr ''Model is Cold'')]),
      (''{"message":"model is cold"}'', JObj [(''message'', JStr ''model is cold'')]),
      (''{"choices":[{"delta":{"content":"Hi"}}]}'',
         JObj [(''choices'', JArr [JObj [(''delta'', JObj [(''content'', JStr ''Hi'')])]])]),
      (''{"id":"c1","model":"m","choices":[{"index":0,"delta":{"content":"Hi"},"finish_reason":null}]}'',
         JObj [(''id'', JStr ''c1''), (''model'', JStr ''m''),
               (''choices'', JArr [JObj [(''index'', JNum 0),
                                         (''delta'', JObj [(''content'', JStr ''Hi'')]),
                                         (''finish_reason'', JNull)]])])]\<close>

text \<open>A world in which every call of \<open>fetch\<close> resolves to the same response.\<close>

definition constant_world :: "response \<Rightarrow> (string \<Rightarrow> string option) \<Rightarrow> world" where
  "constant_world r env =
     \<lparr> fetch_at = (\<lambda>n url. Some r), random_at = (\<lambda>n. 0), now_at = (\<lambda>n. 0),
       process_env = env, JSON_parse = example_parse \<rparr>"

definition initial_state :: dispatch_state where
  "initial_state = \<lparr> calls = 0, slept = [], rateLimits = Map.empty \<rparr>"

definition cold_response :: "nat \<Rightarrow> response" where
  \<open>cold_response code = \<lparr> status = code, headers = [], body = Some [''{"message":"Model is Cold"}''] \<rparr>\<close>

definition lowercase_cold_response :: response where
  \<open>lowercase_cold_response =
     \<lparr> status = 400, headers = [], body = Some [''{"message":"model is cold"}''] \<rparr>\<close>

text \<open>A 204 response: its status is ok and its body is \<open>null\<close>.\<close>

definition no_body_response :: response where
  "no_body_response = \<lparr> status = 204, headers = [], body = None \<rparr>"

definition all_keys_set :: "string \<Rightarrow> string option" where
  "all_keys_set name = Some ''key''"

definition no_keys_set :: "string \<Rightarrow> string option" where
  "no_keys_set name = None"


text \<open>A response with status 200 whose body delivers the given reads.\<close>

definition stream_response :: "string list \<Rightarrow> response" where
  "stream_response reads = \<lparr> status = 200, headers = [], body = Some reads \<rparr>"

definition newline :: string where
  "newline = [CHR 0x0A]"

definition hi_line :: string where
  \<open>hi_line = ''data: {"choices":[{"delta":{"content":"Hi"}}]}''\<close>

definition chunk_line :: string where
  \<open>chunk_line = ''data: {"id":"c1","model":"m","choices":[{"index":0,"delta":{"content":"Hi"},"finish_reason":null}]}''\<close>

definition keep_alive_line :: string where
  "keep_alive_line = '': OPENROUTER PROCESSING''"

section \<open>The retrying dispatcher: lemmas\<close>

lemma fetchWithRetry_reject:
  "fetch_at w (calls s) url = None \<Longrightarrow>
   fetchWithRetry w url provider attempt s = (None, s\<lparr>calls := Suc (calls s)\<rparr>)"
  by (subst fetchWithRetry.simps) simp

lemma fetchWithRetry_return:
  "fetch_at w (calls s) url = Some r \<Longrightarrow> retry_delay w provider attempt (calls s) r = None \<Longrightarrow>
   fetchWithRetry w url provider attempt s = (Some r, after_response w provider r s)"
  by (subst fetchWithRetry.simps)
     (auto simp: retry_delay_def after_response_def Let_def split: if_splits)

lemma fetchWithRetry_retry:
  "fetch_at w (calls s) url = Some r \<Longrightarrow> retry_delay w provider attempt (calls s) r = Some d \<Longrightarrow>
   fetchWithRetry w url provider attempt s =
     fetchWithRetry w url provider (Suc attempt) (sleep d (after_response w provider r s))"
  by (subst fetchWithRetry.simps)
     (auto simp: retry_delay_def after_response_def sleep_def generic_delay_def Let_def
           split: if_splits option.splits)

lemma retry_delay_lt5: "retry_delay w provider attempt n r = Some d \<Longrightarrow> attempt < 5"
  by (auto simp: retry_delay_def MAX_RETRIES_def split: if_splits)

lemma retry_delay_lt3:
  "retry_delay w provider attempt n r = Some d \<Longrightarrow> provider \<noteq> ''featherless'' \<Longrightarrow> attempt < 3"
  by (auto simp: retry_delay_def MAX_RETRIES_def split: if_splits)

lemma calls_after [simp]: "calls (after_response w provider r s) = Suc (calls s)"
  by (simp add: after_response_def)

lemma calls_sleep [simp]: "calls (sleep d s) = calls s"
  by (simp add: sleep_def)

lemma slept_after [simp]: "slept (after_response w provider r s) = slept s"
  by (simp add: after_response_def)

lemma slept_sleep [simp]: "slept (sleep d s) = slept s @ [d]"
  by (simp add: sleep_def)

text \<open>A bound \<open>b\<close> on the attempts at which a retry happens bounds the calls of \<open>fetch\<close>.\<close>

lemma calls_bound_gen:
  assumes "\<And>a n r d. retry_delay w provider a n r = Some d \<Longrightarrow> a < b"
  shows "calls s < calls (snd (fetchWithRetry w url provider attempt s)) \<and>
         calls (snd (fetchWithRetry w url provider attempt s)) \<le> calls s + Suc (b - attempt)"
proof (induction "b - attempt" arbitrary: attempt s)
  case 0
  show ?case
  proof (cases "fetch_at w (calls s) url")
    case None
    then show ?thesis by (simp add: fetchWithRetry_reject)
  next
    case (Some r)
    have "retry_delay w provider attempt (calls s) r = None"
      using 0 assms[of attempt "calls s" r]
      by (cases "retry_delay w provider attempt (calls s) r") auto
    with Some show ?thesis by (simp add: fetchWithRetry_return)
  qed
next
  case (Suc k)
  show ?case
  proof (cases "fetch_at w (calls s) url")
    case None
    then show ?thesis by (simp add: fetchWithRetry_reject)
  next
    case (Some r)
    show ?thesis
    proof (cases "retry_delay w provider attempt (calls s) r")
      case None
      with Some show ?thesis by (simp add: fetchWithRetry_return)
    next
      case (Some d)
      have k: "k = b - Suc attempt" using Suc.hyps(2) by simp
      from Suc.hyps(1)[OF k, of "sleep d (after_response w provider r s)"]
      show ?thesis using \<open>fetch_at w (calls s) url = Some r\<close> Some Suc.hyps(2)
        by (simp add: fetchWithRetry_retry) arith
    qed
  qed
qed

text \<open>The result is the response of the last call; one sleep per call but the last.\<close>

lemma last_response_gen:
  "fst (fetchWithRetry w url provider attempt s)
     = fetch_at w (calls (snd (fetchWithRetry w url provider attempt s)) - 1) url
   \<and> length (slept (snd (fetchWithRetry w url provider attempt s))) + calls s + 1
     = length (slept s) + calls (snd (fetchWithRetry w url provider attempt s))"
proof (induction "5 - attempt" arbitrary: attempt s)
  case 0
  show ?case
  proof (cases "fetch_at w (calls s) url")
    case None
    then show ?thesis by (simp add: fetchWithRetry_reject)
  next
    case (Some r)
    have "retry_delay w provider attempt (calls s) r = None"
      using 0 retry_delay_lt5[of w provider attempt "calls s" r]
      by (cases "retry_delay w provider attempt (calls s) r") auto
    with Some show ?thesis by (simp add: fetchWithRetry_return)
  qed
next
  case (Suc k)
  show ?case
  proof (cases "fetch_at w (calls s) url")
    case None
    then show ?thesis by (simp add: fetchWithRetry_reject)
  next
    case (Some r)
    show ?thesis
    proof (cases "retry_delay w provider attempt (calls s) r")
      case None
      with Some show ?thesis by (simp add: fetchWithRetry_return)
    next
      case (Some d)
      have k: "k = 5 - Suc attempt" using Suc.hyps(2) by simp
      from Suc.hyps(1)[OF k, of "sleep d (after_response w provider r s)"]
      show ?thesis using \<open>fetch_at w (calls s) url = Some r\<close> Some
        by (simp add: fetchWithRetry_retry)
    qed
  qed
qed

text \<open>A run of \<open>k\<close> responses that each force a retry.\<close>

lemma retry_run:
  assumes "\<And>i. i < k \<Longrightarrow> \<exists>r. fetch_at w (calls s + i) url = Some r
                 \<and> retry_delay w provider (attempt + i) (calls s + i) r = Some (d (attempt + i))"
  shows "\<exists>s'. fetchWithRetry w url provider attempt s = fetchWithRetry w url provider (attempt + k) s'
           \<and> calls s' = calls s + k \<and> slept s' = slept s @ map d [attempt..<attempt + k]"
  using assms
proof (induction k arbitrary: attempt s)
  case 0
  show ?case by (rule exI[of _ s]) simp
next
  case (Suc k)
  from Suc.prems[of 0] obtain r where r: "fetch_at w (calls s) url = Some r"
    "retry_delay w provider attempt (calls s) r = Some (d attempt)" by auto
  let ?s1 = "sleep (d attempt) (after_response w provider r s)"
  have "\<exists>s'. fetchWithRetry w url provider (Suc attempt) ?s1
               = fetchWithRetry w url provider (Suc attempt + k) s'
           \<and> calls s' = calls ?s1 + k \<and> slept s' = slept ?s1 @ map d [Suc attempt..<Suc attempt + k]"
  proof (rule Suc.IH)
    fix i assume "i < k"
    then show "\<exists>r. fetch_at w (calls ?s1 + i) url = Some r \<and>
             retry_delay w provider (Suc attempt + i) (calls ?s1 + i) r = Some (d (Suc attempt + i))"
      using Suc.prems[of "Suc i"] by simp
  qed
  then obtain s' where s': "fetchWithRetry w url provider (Suc attempt) ?s1
               = fetchWithRetry w url provider (Suc attempt + k) s'"
           "calls s' = calls ?s1 + k" "slept s' = slept ?s1 @ map d [Suc attempt..<Suc attempt + k]"
    by blast
  show ?case
    apply (rule exI[of _ s'])
    using s' r by (simp add: fetchWithRetry_retry upt_rec[of attempt])
qed


lemma retry_delay_cold:
  "status r = 400 \<Longrightarrow> cold_body w r \<Longrightarrow> attempt < 5 \<Longrightarrow>
   retry_delay w ''featherless'' attempt n r = Some (Some (min 30000 (5000 * (3 / 2) ^ attempt)))"
  by (simp add: retry_delay_def)

lemma retry_delay_hf:
  "status r = 502 \<Longrightarrow> attempt < 3 \<Longrightarrow>
   retry_delay w ''huggingface'' attempt n r = Some (Some (5000 * 2 ^ attempt))"
  by (simp add: retry_delay_def MAX_RETRIES_def)

lemma retry_delay_generic:
  "status r \<in> set RETRY_STATUS_CODES \<Longrightarrow> attempt < 3 \<Longrightarrow>
   \<exists>d. retry_delay w provider attempt n r = Some d"
  by (auto simp: retry_delay_def MAX_RETRIES_def RETRY_STATUS_CODES_def)

lemma retry_delay_exhausted:
  "provider = ''featherless'' \<longrightarrow> status r \<noteq> 400 \<Longrightarrow> 3 \<le> attempt \<Longrightarrow>
   retry_delay w provider attempt n r = None"
  by (auto simp: retry_delay_def MAX_RETRIES_def)

lemma retry_delay_exhausted5: "5 \<le> attempt \<Longrightarrow> retry_delay w provider attempt n r = None"
  by (auto simp: retry_delay_def MAX_RETRIES_def)

lemma cold_delay_mono:
  "a \<le> b \<Longrightarrow> min 30000 (5000 * (3 / 2) ^ a) \<le> min (30000::rat) (5000 * (3 / 2) ^ b)"
proof -
  assume "a \<le> b"
  then have "(3 / 2 :: rat) ^ a \<le> (3 / 2) ^ b" by (intro power_increasing) simp_all
  then show ?thesis by (simp add: min_le_iff_disj)
qed


lemma featherless_cold_run:
  assumes cold: "\<forall>i<6. \<exists>r. fetch_at w (calls s + i) url = Some r \<and> status r = 400 \<and> cold_body w r"
  shows "fst (fetchWithRetry w url ''featherless'' 0 s) = fetch_at w (calls s + 5) url
    \<and> calls (snd (fetchWithRetry w url ''featherless'' 0 s)) = calls s + 6
    \<and> slept (snd (fetchWithRetry w url ''featherless'' 0 s))
        = slept s @ map (\<lambda>a. Some (min 30000 (5000 * (3 / 2) ^ a))) [0..<5]"
proof -
  let ?d = "\<lambda>a. Some (min (30000::rat) (5000 * (3 / 2) ^ a))"
  have "\<exists>s'. fetchWithRetry w url ''featherless'' 0 s = fetchWithRetry w url ''featherless'' (0 + 5) s'
           \<and> calls s' = calls s + 5 \<and> slept s' = slept s @ map ?d [0..<0 + 5]"
  proof (rule retry_run)
    fix i :: nat assume "i < 5"
    then have "i < 6" by simp
    with cold obtain r where "fetch_at w (calls s + i) url = Some r" "status r = 400" "cold_body w r"
      by blast
    with \<open>i < 5\<close> show "\<exists>r. fetch_at w (calls s + i) url = Some r \<and>
        retry_delay w ''featherless'' (0 + i) (calls s + i) r = Some (?d (0 + i))"
      by (simp add: retry_delay_cold)
  qed
  then obtain s' where s': "fetchWithRetry w url ''featherless'' 0 s = fetchWithRetry w url ''featherless'' 5 s'"
    "calls s' = calls s + 5" "slept s' = slept s @ map ?d [0..<5]" by auto
  have "(5::nat) < 6" by simp
  with cold obtain r where r: "fetch_at w (calls s + 5) url = Some r" by blast
  have fin: "fetchWithRetry w url ''featherless'' 5 s' = (Some r, after_response w ''featherless'' r s')"
    using r s'(2) by (intro fetchWithRetry_return) (simp_all add: retry_delay_exhausted5)
  show ?thesis using s' fin r by simp
qed

lemma huggingface_502_run:
  assumes hf: "\<forall>i<4. \<exists>r. fetch_at w (calls s + i) url = Some r \<and> status r = 502"
  shows "fst (fetchWithRetry w url ''huggingface'' 0 s) = fetch_at w (calls s + 3) url
    \<and> calls (snd (fetchWithRetry w url ''huggingface'' 0 s)) = calls s + 4
    \<and> slept (snd (fetchWithRetry w url ''huggingface'' 0 s))
        = slept s @ map (\<lambda>a. Some (5000 * 2 ^ a)) [0..<3]"
proof -
  let ?d = "\<lambda>a. Some ((5000::rat) * 2 ^ a)"
  have "\<exists>s'. fetchWithRetry w url ''huggingface'' 0 s = fetchWithRetry w url ''huggingface'' (0 + 3) s'
           \<and> calls s' = calls s + 3 \<and> slept s' = slept s @ map ?d [0..<0 + 3]"
  proof (rule retry_run)
    fix i :: nat assume "i < 3"
    then have "i < 4" by simp
    with hf obtain r where "fetch_at w (calls s + i) url = Some r" "status r = 502"
      by blast
    with \<open>i < 3\<close> show "\<exists>r. fetch_at w (calls s + i) url = Some r \<and>
        retry_delay w ''huggingface'' (0 + i) (calls s + i) r = Some (?d (0 + i))"
      by (simp add: retry_delay_hf)
  qed
  then obtain s' where s': "fetchWithRetry w url ''huggingface'' 0 s = fetchWithRetry w url ''huggingface'' 3 s'"
    "calls s' = calls s + 3" "slept s' = slept s @ map ?d [0..<3]" by auto
  have "(3::nat) < 4" by simp
  with hf obtain r where r: "fetch_at w (calls s + 3) url = Some r" by blast
  have fin: "fetchWithRetry w url ''huggingface'' 3 s' = (Some r, after_response w ''huggingface'' r s')"
    using r s'(2) by (intro fetchWithRetry_return) (simp_all add: retry_delay_exhausted)
  show ?thesis using s' fin r by simp
qed

lemma generic_run:
  assumes gen: "\<forall>i<4. \<exists>r. fetch_at w (calls s + i) url = Some r \<and> status r \<in> set RETRY_STATUS_CODES"
  shows "fst (fetchWithRetry w url provider 0 s) = fetch_at w (calls s + 3) url
    \<and> calls (snd (fetchWithRetry w url provider 0 s)) = calls s + 4
    \<and> length (slept (snd (fetchWithRetry w url provider 0 s))) = length (slept s) + 3"
proof -
  define d where "d = (\<lambda>a. the (retry_delay w provider a (calls s + a) (the (fetch_at w (calls s + a) url))))"
  have "\<exists>s'. fetchWithRetry w url provider 0 s = fetchWithRetry w url provider (0 + 3) s'
           \<and> calls s' = calls s + 3 \<and> slept s' = slept s @ map d [0..<0 + 3]"
  proof (rule retry_run)
    fix i :: nat assume "i < 3"
    then have "i < 4" by simp
    with gen obtain r where r: "fetch_at w (calls s + i) url = Some r" "status r \<in> set RETRY_STATUS_CODES"
      by blast
    from retry_delay_generic[OF r(2) \<open>i < 3\<close>, of w provider "calls s + i"]
    obtain x where "retry_delay w provider i (calls s + i) r = Some x" by blast
    with r show "\<exists>r. fetch_at w (calls s + i) url = Some r \<and>
        retry_delay w provider (0 + i) (calls s + i) r = Some (d (0 + i))"
      by (simp add: d_def)
  qed
  then obtain s' where s': "fetchWithRetry w url provider 0 s = fetchWithRetry w url provider 3 s'"
    "calls s' = calls s + 3" "slept s' = slept s @ map d [0..<3]" by auto
  have "(3::nat) < 4" by simp
  with gen obtain r where r: "fetch_at w (calls s + 3) url = Some r" "status r \<in> set RETRY_STATUS_CODES"
    by blast
  then have "status r \<noteq> 400" by (auto simp: RETRY_STATUS_CODES_def)
  then have fin: "fetchWithRetry w url provider 3 s' = (Some r, after_response w provider r s')"
    using r s'(2) by (intro fetchWithRetry_return) (simp_all add: retry_delay_exhausted)
  show ?thesis using s' fin r by simp
qed

lemma constant_world_simps:
  "fetch_at (constant_world r env) n url = Some r"
  "random_at (constant_world r env) n = 0"
  "now_at (constant_world r env) n = 0"
  "process_env (constant_world r env) = env"
  "JSON_parse (constant_world r env) = example_parse"
  by (simp_all add: constant_world_def)

lemma initial_state_simps:
  "calls initial_state = 0" "slept initial_state = []" "rateLimits initial_state = Map.empty"
  by (simp_all add: initial_state_def)

lemma cold_response_simps:
  "status (cold_response code) = code" "headers (cold_response code) = []"
  by (simp_all add: cold_response_def)

lemma cold_body_example: "cold_body (constant_world r env) (cold_response code)"
  by (simp add: cold_body_def constant_world_def cold_response_def response_json_def
        body_text_def example_parse_def cold_message_def message_includes_def startsWith_def)

lemma upt_0_3: "[0..<3] = [0, 1, 2::nat]"
  by (simp add: upt_rec)

lemma upt_0_5: "[0..<5] = [0, 1, 2, 3, 4::nat]"
  by (simp add: upt_rec)

text \<open>
  Claim C1, as stated, fails for HuggingFace: on a 502 whose body carries the cold-start
  marker the dispatcher retries three times, not five, and sleeps 5000, 10000 and 20000
  milliseconds, which is not the schedule min(30000, 5000 * 1.5^attempt).
\<close>
theorem C1_huggingface_counterexample:
  "cold_body (constant_world (cold_response 502) no_keys_set) (cold_response 502)
   \<and> calls (snd (fetchWithRetry (constant_world (cold_response 502) no_keys_set) ''u'' ''huggingface'' 0 initial_state)) = 4
   \<and> slept (snd (fetchWithRetry (constant_world (cold_response 502) no_keys_set) ''u'' ''huggingface'' 0 initial_state))
       = [Some 5000, Some 10000, Some 20000]
   \<and> slept (snd (fetchWithRetry (constant_world (cold_response 502) no_keys_set) ''u'' ''huggingface'' 0 initial_state))
       \<noteq> map (\<lambda>a. Some (min 30000 (5000 * (3 / 2) ^ a))) [0..<5]"
  using huggingface_502_run[of "constant_world (cold_response 502) no_keys_set" initial_state "''u''"]
  by (simp add: cold_body_example constant_world_simps cold_response_simps initial_state_simps upt_0_3 upt_0_5)


text \<open>
  Claim C1, amended. For Featherless, six responses in a row with status 400 and a
  cold-start marker make the dispatcher retry exactly five times, sleeping
  min(30000, 5000 * 1.5^attempt) before each retry, and return the sixth response. For
  HuggingFace, four responses in a row with status 502, whatever their body, make it
  retry exactly three times, sleeping 5000 * 2^attempt, and return the fourth. The
  Featherless schedule is monotonically non-decreasing.
\<close>
theorem C1_cold_start_schedule:
  "((\<forall>i<6. \<exists>r. fetch_at w (calls s + i) url = Some r \<and> status r = 400 \<and> cold_body w r) \<longrightarrow>
      fst (fetchWithRetry w url ''featherless'' 0 s) = fetch_at w (calls s + 5) url
    \<and> calls (snd (fetchWithRetry w url ''featherless'' 0 s)) = calls s + 6
    \<and> slept (snd (fetchWithRetry w url ''featherless'' 0 s))
        = slept s @ map (\<lambda>a. Some (min 30000 (5000 * (3 / 2) ^ a))) [0..<5])
   \<and> ((\<forall>i<4. \<exists>r. fetch_at w (calls s + i) url = Some r \<and> status r = 502) \<longrightarrow>
      fst (fetchWithRetry w url ''huggingface'' 0 s) = fetch_at w (calls s + 3) url
    \<and> calls (snd (fetchWithRetry w url ''huggingface'' 0 s)) = calls s + 4
    \<and> slept (snd (fetchWithRetry w url ''huggingface'' 0 s))
        = slept s @ map (\<lambda>a. Some (5000 * 2 ^ a)) [0..<3])
   \<and> (a \<le> b \<longrightarrow> min 30000 (5000 * (3 / 2) ^ a) \<le> min (30000::rat) (5000 * (3 / 2) ^ b))"
  using featherless_cold_run[of w s url] huggingface_502_run[of w s url] cold_delay_mono[of a b]
  by blast

text \<open>The theorem of C1 at a Featherless world and at a HuggingFace world.\<close>
theorem C1_cold_start_schedule_witness:
  "(\<forall>i. \<exists>r. fetch_at (constant_world (cold_response 400) no_keys_set) (calls initial_state + i) ''u'' = Some r
        \<and> status r = 400 \<and> cold_body (constant_world (cold_response 400) no_keys_set) r)
   \<and> calls (snd (fetchWithRetry (constant_world (cold_response 400) no_keys_set) ''u'' ''featherless'' 0 initial_state)) = 6
   \<and> slept (snd (fetchWithRetry (constant_world (cold_response 400) no_keys_set) ''u'' ''featherless'' 0 initial_state))
       = [Some 5000, Some 7500, Some 11250, Some 16875, Some (50625 / 2)]
   \<and> (\<forall>i. \<exists>r. fetch_at (constant_world (cold_response 502) no_keys_set) (calls initial_state + i) ''u'' = Some r
        \<and> status r = 502)
   \<and> slept (snd (fetchWithRetry (constant_world (cold_response 502) no_keys_set) ''u'' ''huggingface'' 0 initial_state))
       = [Some 5000, Some 10000, Some 20000]
   \<and> (1::nat) \<le> 2 \<and> min 30000 (5000 * (3 / 2) ^ (1::nat)) \<le> min (30000::rat) (5000 * (3 / 2) ^ (2::nat))"
  using C1_cold_start_schedule[of "constant_world (cold_response 400) no_keys_set" initial_state "''u''" 1 2]
        C1_cold_start_schedule[of "constant_world (cold_response 502) no_keys_set" initial_state "''u''" 1 2]
  by (simp add: cold_body_example constant_world_simps cold_response_simps initial_state_simps
        upt_0_3 upt_0_5 power_divide)

text \<open>
  Claim C2. For every provider, when the first four responses of a dispatch all have a
  status in {429, 500, 502, 503, 504}, the dispatcher retries exactly three times and
  returns the fourth response as it was received.
\<close>
theorem C2_generic_retry_exhaustion:
  assumes "\<forall>i<4. \<exists>r. fetch_at w (calls s + i) url = Some r \<and> status r \<in> set RETRY_STATUS_CODES"
  shows "fst (fetchWithRetry w url provider 0 s) = fetch_at w (calls s + 3) url
    \<and> calls (snd (fetchWithRetry w url provider 0 s)) = calls s + 4
    \<and> length (slept (snd (fetchWithRetry w url provider 0 s))) = length (slept s) + 3"
  using assms by (rule generic_run)

text \<open>The theorem of C2 at a provider that always answers 503.\<close>
theorem C2_generic_retry_exhaustion_witness:
  "(\<forall>i. \<exists>r. fetch_at (constant_world (cold_response 503) no_keys_set) (calls initial_state + i) ''u'' = Some r
        \<and> status r \<in> set RETRY_STATUS_CODES)
   \<and> fst (fetchWithRetry (constant_world (cold_response 503) no_keys_set) ''u'' ''together'' 0 initial_state)
       = Some (cold_response 503)
   \<and> calls (snd (fetchWithRetry (constant_world (cold_response 503) no_keys_set) ''u'' ''together'' 0 initial_state)) = 4"
  using C2_generic_retry_exhaustion[of "constant_world (cold_response 503) no_keys_set" initial_state "''u''" "''together''"]
  by (simp add: constant_world_simps cold_response_simps initial_state_simps RETRY_STATUS_CODES_def)

text \<open>
  Claim C10. \<open>fetchWithRetry\<close> is a total function (its termination is proved with the
  measure 5 - attempt, every recursive call being at attempt + 1 under a guard
  attempt < 5 or attempt < 3). A dispatch issues at least one request and at most
  1 + (5 - attempt), so at most 6 from attempt 0 and one from attempt 5 on; for a
  provider other than Featherless it issues at most 1 + (3 - attempt).
\<close>
theorem C10_fetchWithRetry_request_bound:
  "calls s < calls (snd (fetchWithRetry w url provider attempt s))
   \<and> calls (snd (fetchWithRetry w url provider attempt s)) \<le> calls s + Suc (5 - attempt)
   \<and> (provider \<noteq> ''featherless'' \<longrightarrow>
        calls (snd (fetchWithRetry w url provider attempt s)) \<le> calls s + Suc (3 - attempt))"
proof (intro conjI impI)
  have b5: "\<And>a n r d. retry_delay w provider a n r = Some d \<Longrightarrow> a < 5"
    by (rule retry_delay_lt5)
  from calls_bound_gen[of w provider 5 s url attempt, OF b5]
  show "calls s < calls (snd (fetchWithRetry w url provider attempt s))"
    and "calls (snd (fetchWithRetry w url provider attempt s)) \<le> calls s + Suc (5 - attempt)"
    by simp_all
next
  assume nf: "provider \<noteq> ''featherless''"
  have b3: "\<And>a n r d. retry_delay w provider a n r = Some d \<Longrightarrow> a < 3"
    using nf retry_delay_lt3 by blast
  from calls_bound_gen[of w provider 3 s url attempt, OF b3]
  show "calls (snd (fetchWithRetry w url provider attempt s)) \<le> calls s + Suc (3 - attempt)"
    by simp
qed

text \<open>The theorem of C10 at a HuggingFace world and at a Featherless world.\<close>
theorem C10_fetchWithRetry_request_bound_witness:
  "''huggingface'' \<noteq> ''featherless''
   \<and> calls (snd (fetchWithRetry (constant_world (cold_response 502) no_keys_set) ''u'' ''huggingface'' 0 initial_state))
        \<le> calls initial_state + Suc (3 - 0)
   \<and> calls (snd (fetchWithRetry (constant_world (cold_response 400) no_keys_set) ''u'' ''featherless'' 0 initial_state))
        \<le> calls initial_state + Suc (5 - 0)"
  using C10_fetchWithRetry_request_bound[of initial_state "constant_world (cold_response 502) no_keys_set" "''u''" "''huggingface''" 0]
        C10_fetchWithRetry_request_bound[of initial_state "constant_world (cold_response 400) no_keys_set" "''u''" "''featherless''" 0]
  by simp

section \<open>Cold-start classification\<close>

lemma lowercase_cold_response_simps:
  "status lowercase_cold_response = 400" "headers lowercase_cold_response = []"
  by (simp_all add: lowercase_cold_response_def)

lemma response_json_lowercase:
  \<open>response_json (constant_world r env) lowercase_cold_response
     = Some (JObj [(''message'', JStr ''model is cold'')])\<close>
  by (simp add: response_json_def body_text_def lowercase_cold_response_def
        constant_world_simps example_parse_def)

lemma response_json_cold:
  \<open>response_json (constant_world r env) (cold_response code)
     = Some (JObj [(''message'', JStr ''Model is Cold'')])\<close>
  by (simp add: response_json_def body_text_def cold_response_def
        constant_world_simps example_parse_def)

lemma cold_body_string_message:
  assumes "response_json w r = Some (JObj kvs)" "map_of kvs ''message'' = Some (JStr m)"
  shows "cold_body w r = (str_includes m ''Cold'' \<or> str_includes m ''Not Ready'')"
  using assms by (auto simp: cold_body_def cold_message_def message_includes_def)

lemma not_cold_lowercase:
  "\<not> cold_body (constant_world r env) lowercase_cold_response"
  using cold_body_string_message[OF response_json_lowercase, of "''model is cold''" r env]
  by (simp add: startsWith_def)

text \<open>
  Claim C3, as stated, fails: a Featherless response with status 400 and the body
  \<open>{"message":"model is cold"}\<close> matches the marker without regard to case, yet it is
  not classified as a cold start; the dispatcher returns it at once, without a retry.
\<close>

theorem C3_lowercase_marker_counterexample:
  "spec_cold_marker ''model is cold''
   \<and> status lowercase_cold_response = 400
   \<and> response_json (constant_world lowercase_cold_response no_keys_set) lowercase_cold_response
       = Some (JObj [(''message'', JStr ''model is cold'')])
   \<and> \<not> cold_body (constant_world lowercase_cold_response no_keys_set) lowercase_cold_response
   \<and> fst (fetchWithRetry (constant_world lowercase_cold_response no_keys_set) ''u'' ''featherless'' 0 initial_state)
       = Some lowercase_cold_response
   \<and> calls (snd (fetchWithRetry (constant_world lowercase_cold_response no_keys_set) ''u'' ''featherless'' 0 initial_state)) = 1
   \<and> slept (snd (fetchWithRetry (constant_world lowercase_cold_response no_keys_set) ''u'' ''featherless'' 0 initial_state)) = []"
proof -
  let ?w = "constant_world lowercase_cold_response no_keys_set"
  have spec: "spec_cold_marker ''model is cold''"
    by code_simp
  have "retry_delay ?w ''featherless'' 0 (calls initial_state) lowercase_cold_response = None"
    by (simp add: retry_delay_def not_cold_lowercase lowercase_cold_response_simps)
  then have "fetchWithRetry ?w ''u'' ''featherless'' 0 initial_state
     = (Some lowercase_cold_response, after_response ?w ''featherless'' lowercase_cold_response initial_state)"
    by (intro fetchWithRetry_return) (simp_all add: constant_world_simps)
  then show ?thesis
    using spec by (simp add: lowercase_cold_response_simps response_json_lowercase not_cold_lowercase initial_state_simps)
qed

text \<open>
  Claim C3, amended. For a Featherless response with status 400 whose body is a JSON
  object with a string \<open>message\<close>, the response is classified as a cold start exactly
  when the message contains \<open>Cold\<close> or \<open>Not Ready\<close>, compared with regard to case. A
  cold response is retried after min(30000, 5000 * 1.5^attempt) while attempt < 5; a
  response that is not cold is returned at once.
\<close>

theorem C3_cold_marker_case_sensitive:
  assumes "fetch_at w (calls s) url = Some r" "status r = 400"
    and "response_json w r = Some (JObj kvs)" "map_of kvs ''message'' = Some (JStr m)"
  shows "(cold_body w r \<longleftrightarrow> str_includes m ''Cold'' \<or> str_includes m ''Not Ready'')
    \<and> (cold_body w r \<and> attempt < 5 \<longrightarrow>
          fetchWithRetry w url ''featherless'' attempt s
            = fetchWithRetry w url ''featherless'' (Suc attempt)
                (sleep (Some (min 30000 (5000 * (3 / 2) ^ attempt))) (after_response w ''featherless'' r s)))
    \<and> (\<not> cold_body w r \<longrightarrow>
          fetchWithRetry w url ''featherless'' attempt s = (Some r, after_response w ''featherless'' r s))"
proof (intro conjI impI)
  show "cold_body w r \<longleftrightarrow> str_includes m ''Cold'' \<or> str_includes m ''Not Ready''"
    using assms(3,4) by (rule cold_body_string_message)
next
  assume "cold_body w r \<and> attempt < 5"
  then have "retry_delay w ''featherless'' attempt (calls s) r
      = Some (Some (min 30000 (5000 * (3 / 2) ^ attempt)))"
    using assms(2) by (simp add: retry_delay_cold)
  with assms(1) show "fetchWithRetry w url ''featherless'' attempt s
            = fetchWithRetry w url ''featherless'' (Suc attempt)
                (sleep (Some (min 30000 (5000 * (3 / 2) ^ attempt))) (after_response w ''featherless'' r s))"
    by (rule fetchWithRetry_retry)
next
  assume "\<not> cold_body w r"
  then have "retry_delay w ''featherless'' attempt (calls s) r = None"
    using assms(2) by (simp add: retry_delay_def)
  with assms(1) show "fetchWithRetry w url ''featherless'' attempt s = (Some r, after_response w ''featherless'' r s)"
    by (rule fetchWithRetry_return)
qed

text \<open>The theorem of C3 at the body \<open>{"message":"Model is Cold"}\<close>.\<close>

theorem C3_cold_marker_case_sensitive_witness:
  "fetch_at (constant_world (cold_response 400) no_keys_set) (calls initial_state) ''u'' = Some (cold_response 400)
   \<and> status (cold_response 400) = 400
   \<and> response_json (constant_world (cold_response 400) no_keys_set) (cold_response 400)
       = Some (JObj [(''message'', JStr ''Model is Cold'')])
   \<and> map_of [(''message'', JStr ''Model is Cold'')] ''message'' = Some (JStr ''Model is Cold'')
   \<and> str_includes ''Model is Cold'' ''Cold''
   \<and> cold_body (constant_world (cold_response 400) no_keys_set) (cold_response 400)
   \<and> fetchWithRetry (constant_world (cold_response 400) no_keys_set) ''u'' ''featherless'' 0 initial_state
       = fetchWithRetry (constant_world (cold_response 400) no_keys_set) ''u'' ''featherless'' (Suc 0)
           (sleep (Some 5000) (after_response (constant_world (cold_response 400) no_keys_set) ''featherless''
              (cold_response 400) initial_state))"
  using C3_cold_marker_case_sensitive[of "constant_world (cold_response 400) no_keys_set" initial_state "''u''"
          "cold_response 400" "[(''message'', JStr ''Model is Cold'')]" "''Model is Cold''" 0]
  by (simp add: constant_world_simps cold_response_simps response_json_cold startsWith_def)

section \<open>Strings\<close>

lemma startsWith_iff_prefix: "startsWith s t \<longleftrightarrow> prefix t s"
proof
  assume "startsWith s t"
  then have "s = t @ drop (length t) s"
    by (metis append_take_drop_id startsWith_def)
  then show "prefix t s" by (metis prefixI)
next
  assume "prefix t s"
  then obtain zs where "s = t @ zs" by (auto simp: prefix_def)
  then show "startsWith s t" by (simp add: startsWith_def)
qed

lemma str_includes_iff_sublist: "str_includes s t \<longleftrightarrow> sublist t s"
  by (induction s) (simp_all add: startsWith_iff_prefix sublist_Cons_right)

lemma str_includes_self: "str_includes t t"
  by (cases t) (simp_all add: startsWith_def)

lemma str_includes_append: "str_includes (m @ t) t"
  by (induction m) (simp_all add: str_includes_self)

lemma occurrences_pos_iff: "0 < occurrences s t \<longleftrightarrow> str_includes s t"
  by (induction s) auto

lemma startsWith_append_self:
  assumes t: "t = a # rest" "a \<notin> set rest" and x: "x \<noteq> []" and sw: "startsWith (x @ t) t"
  shows "startsWith x t"
proof (cases "length x < length t")
  case True
  from sw have tk: "take (length t) (x @ t) = t" by (simp add: startsWith_def)
  have "(take (length t) (x @ t)) ! (length x) = (x @ t) ! (length x)"
    using True by (rule nth_take)
  also have "\<dots> = a" using t by (simp add: nth_append)
  finally have "t ! (length x) = a" using tk by simp
  moreover obtain j where j: "length x = Suc j" using x by (cases x) auto
  ultimately have "rest ! j = a" using t by simp
  moreover have "j < length rest" using True j t by simp
  ultimately have "a \<in> set rest" by (metis nth_mem)
  with t show ?thesis by simp
next
  case False
  with sw show ?thesis by (simp add: startsWith_def)
qed

lemma occurrences_append_once:
  assumes t: "t = a # rest" "a \<notin> set rest" and "\<not> str_includes m t"
  shows "occurrences (m @ t) t = 1"
  using assms(3)
proof (induction m)
  case Nil
  have "\<not> sublist t rest"
    using sublist_length_le[of t rest] t by auto
  then have "occurrences rest t = 0"
    using occurrences_pos_iff[of rest t] by (simp add: str_includes_iff_sublist)
  then show ?case using t by (simp add: startsWith_def)
next
  case (Cons c cs)
  then have ns: "\<not> startsWith (c # cs) t" and ni: "\<not> str_includes cs t" by simp_all
  have "\<not> startsWith ((c # cs) @ t) t"
    using startsWith_append_self[OF t, of "c # cs"] ns by blast
  then show ?case using Cons.IH[OF ni] by simp
qed

section \<open>Model identifier rewrite\<close>

text \<open>
  Claim C9. The rewrite is idempotent; an identifier that contains \<open>:featherless-ai\<close>
  is left as it is; one that does not gets the suffix appended, and the result holds
  the suffix exactly once.
\<close>

theorem C9_model_rewrite_idempotent:
  "featherless_ai_model (featherless_ai_model m) = featherless_ai_model m
   \<and> (str_includes m '':featherless-ai'' \<longrightarrow> featherless_ai_model m = m)
   \<and> (\<not> str_includes m '':featherless-ai'' \<longrightarrow>
         featherless_ai_model m = m @ '':featherless-ai''
       \<and> occurrences (featherless_ai_model m) '':featherless-ai'' = 1)"
proof (intro conjI impI)
  show "featherless_ai_model (featherless_ai_model m) = featherless_ai_model m"
    by (simp add: featherless_ai_model_def str_includes_append)
  show "featherless_ai_model m = m" if "str_includes m '':featherless-ai''"
    using that by (simp add: featherless_ai_model_def)
  show "featherless_ai_model m = m @ '':featherless-ai''" if "\<not> str_includes m '':featherless-ai''"
    using that by (simp add: featherless_ai_model_def)
  show "occurrences (featherless_ai_model m) '':featherless-ai'' = 1"
    if "\<not> str_includes m '':featherless-ai''"
  proof -
    have "occurrences (m @ '':featherless-ai'') '':featherless-ai'' = 1"
      by (rule occurrences_append_once[where a = "CHR '':''" and rest = "''featherless-ai''"])
         (simp_all add: that)
    then show ?thesis using that by (simp add: featherless_ai_model_def)
  qed
qed

text \<open>The theorem of C9 at an identifier without the suffix and at one with it.\<close>

theorem C9_model_rewrite_idempotent_witness:
  "\<not> str_includes ''org/model'' '':featherless-ai''
   \<and> featherless_ai_model ''org/model'' = ''org/model:featherless-ai''
   \<and> occurrences (featherless_ai_model ''org/model'') '':featherless-ai'' = 1
   \<and> str_includes ''org/model:featherless-ai'' '':featherless-ai''
   \<and> featherless_ai_model ''org/model:featherless-ai'' = ''org/model:featherless-ai''"
  using C9_model_rewrite_idempotent[of "''org/model''"]
        C9_model_rewrite_idempotent[of "''org/model:featherless-ai''"]
  by (simp add: startsWith_def)

section \<open>Rate-limit tracking: lemmas\<close>

lemma headers_get_case_insensitive:
  "toLowerCase name = toLowerCase name' \<Longrightarrow> headers_get hs name = headers_get hs name'"
  by (simp add: headers_get_def)

lemma headers_get_present:
  "headers_get hs name \<noteq> None \<longleftrightarrow> (\<exists>kv \<in> set hs. toLowerCase (fst kv) = toLowerCase name)"
proof -
  have "headers_get hs name \<noteq> None
        \<longleftrightarrow> filter (\<lambda>kv. toLowerCase (fst kv) = toLowerCase name) hs \<noteq> []"
    by (simp add: headers_get_def split: list.splits)
  then show ?thesis by (simp add: filter_empty_conv)
qed

lemma headers_get_lowered:
  "headers_get hs name =
     (case map snd (filter (\<lambda>kv. fst kv = toLowerCase name)
                      (map (\<lambda>kv. (toLowerCase (fst kv), snd kv)) hs)) of
        [] \<Rightarrow> None
      | vs \<Rightarrow> Some (join_values vs))"
proof -
  have "map snd (filter (\<lambda>kv. fst kv = toLowerCase name)
                      (map (\<lambda>kv. (toLowerCase (fst kv), snd kv)) hs))
        = map snd (filter (\<lambda>kv. toLowerCase (fst kv) = toLowerCase name) hs)"
    by (induction hs) auto
  then show ?thesis
    by (simp add: headers_get_def split: list.splits)
qed

lemma or_else_same: "or_else a a = a"
  by (simp add: or_else_def split: option.splits)

lemma rate_limit_header_names:
  "toLowerCase ''X-RateLimit-Limit'' = toLowerCase ''x-ratelimit-limit''"
  "toLowerCase ''X-RateLimit-Remaining'' = toLowerCase ''x-ratelimit-remaining''"
  "toLowerCase ''X-RateLimit-Reset'' = toLowerCase ''x-ratelimit-reset''"
  by code_simp+

lemma parseRateLimitHeaders_eq:
  "parseRateLimitHeaders now hs provider m =
     (case headers_get hs ''x-ratelimit-limit'' of
        None \<Rightarrow> m
      | Some l \<Rightarrow>
         (case headers_get hs ''x-ratelimit-remaining'' of
            None \<Rightarrow> m
          | Some r \<Rightarrow>
              if l \<noteq> [] \<and> r \<noteq> [] then
                m(provider \<mapsto>
                  \<lparr> limit = parseInt l, remaining = parseInt r,
                    reset = (case headers_get hs ''x-ratelimit-reset'' of
                               None \<Rightarrow> Some (now + 60000)
                             | Some t \<Rightarrow> if t \<noteq> [] then times1000 (parseInt t)
                                        else Some (now + 60000)) \<rparr>)
              else m))"
  by (simp add: parseRateLimitHeaders_def Let_def or_else_same
        headers_get_case_insensitive[OF rate_limit_header_names(1)]
        headers_get_case_insensitive[OF rate_limit_header_names(2)]
        headers_get_case_insensitive[OF rate_limit_header_names(3)])

text \<open>
  Claim C8, as stated, fails: a response that carries both headers, the limit header
  with an empty value, leaves the recorded snapshot as it was instead of overwriting it
  with the new values.
\<close>

theorem C8_empty_header_counterexample:
  "headers_get [(''x-ratelimit-limit'', ''''), (''x-ratelimit-remaining'', ''5'')] ''x-ratelimit-limit'' = Some ''''
   \<and> headers_get [(''x-ratelimit-limit'', ''''), (''x-ratelimit-remaining'', ''5'')] ''x-ratelimit-remaining'' = Some ''5''
   \<and> parseRateLimitHeaders 0 [(''x-ratelimit-limit'', ''''), (''x-ratelimit-remaining'', ''5'')] ''openrouter''
        (Map.empty(''openrouter'' \<mapsto> \<lparr> limit = Some 100, remaining = Some 7, reset = Some 0 \<rparr>)) ''openrouter''
       = Some \<lparr> limit = Some 100, remaining = Some 7, reset = Some 0 \<rparr>
   \<and> parseRateLimitHeaders 0 [(''x-ratelimit-limit'', ''''), (''x-ratelimit-remaining'', ''5'')] ''openrouter''
        (Map.empty(''openrouter'' \<mapsto> \<lparr> limit = Some 100, remaining = Some 7, reset = Some 0 \<rparr>)) ''openrouter''
       \<noteq> Some \<lparr> limit = parseInt '''', remaining = parseInt ''5'', reset = Some (0 + 60000) \<rparr>"
proof -
  have l: "headers_get [(''x-ratelimit-limit'', ''''), (''x-ratelimit-remaining'', ''5'')] ''x-ratelimit-limit'' = Some ''''"
    by code_simp
  have r: "headers_get [(''x-ratelimit-limit'', ''''), (''x-ratelimit-remaining'', ''5'')] ''x-ratelimit-remaining'' = Some ''5''"
    by code_simp
  show ?thesis
    by (simp add: parseRateLimitHeaders_eq l r)
qed

text \<open>
  Claim C8, amended. If the limit header and the remaining header are both present
  with a value that is not empty, the provider's snapshot is overwritten with the
  parsed values; if either is absent or empty, the rate-limit map is left as it was.
  No other provider's snapshot is ever modified, and header names are matched without
  regard to case.
\<close>

theorem C8_rate_limit_snapshot:
  "(headers_get hs ''x-ratelimit-limit'' = Some l \<and> l \<noteq> []
      \<and> headers_get hs ''x-ratelimit-remaining'' = Some r \<and> r \<noteq> [] \<longrightarrow>
      parseRateLimitHeaders now hs provider m =
        m(provider \<mapsto>
          \<lparr> limit = parseInt l, remaining = parseInt r,
            reset = (case headers_get hs ''x-ratelimit-reset'' of
                       None \<Rightarrow> Some (now + 60000)
                     | Some t \<Rightarrow> if t \<noteq> [] then times1000 (parseInt t)
                                else Some (now + 60000)) \<rparr>))
   \<and> (headers_get hs ''x-ratelimit-limit'' \<in> {None, Some []}
        \<or> headers_get hs ''x-ratelimit-remaining'' \<in> {None, Some []} \<longrightarrow>
      parseRateLimitHeaders now hs provider m = m)
   \<and> (p \<noteq> provider \<longrightarrow> parseRateLimitHeaders now hs provider m p = m p)
   \<and> (map (\<lambda>kv. (toLowerCase (fst kv), snd kv)) hs' = map (\<lambda>kv. (toLowerCase (fst kv), snd kv)) hs \<longrightarrow>
      parseRateLimitHeaders now hs' provider m = parseRateLimitHeaders now hs provider m)"
proof (intro conjI impI)
  assume "headers_get hs ''x-ratelimit-limit'' = Some l \<and> l \<noteq> []
      \<and> headers_get hs ''x-ratelimit-remaining'' = Some r \<and> r \<noteq> []"
  then show "parseRateLimitHeaders now hs provider m =
        m(provider \<mapsto>
          \<lparr> limit = parseInt l, remaining = parseInt r,
            reset = (case headers_get hs ''x-ratelimit-reset'' of
                       None \<Rightarrow> Some (now + 60000)
                     | Some t \<Rightarrow> if t \<noteq> [] then times1000 (parseInt t)
                                else Some (now + 60000)) \<rparr>)"
    by (simp add: parseRateLimitHeaders_eq)
next
  assume "headers_get hs ''x-ratelimit-limit'' \<in> {None, Some []}
        \<or> headers_get hs ''x-ratelimit-remaining'' \<in> {None, Some []}"
  then show "parseRateLimitHeaders now hs provider m = m"
    by (auto simp: parseRateLimitHeaders_eq split: option.splits)
next
  assume "p \<noteq> provider"
  then show "parseRateLimitHeaders now hs provider m p = m p"
    by (simp add: parseRateLimitHeaders_eq split: option.splits)
next
  assume "map (\<lambda>kv. (toLowerCase (fst kv), snd kv)) hs' = map (\<lambda>kv. (toLowerCase (fst kv), snd kv)) hs"
  then have "headers_get hs' name = headers_get hs name" for name
    by (simp add: headers_get_lowered)
  then have h: "headers_get hs' = headers_get hs" by (rule ext)
  show "parseRateLimitHeaders now hs' provider m = parseRateLimitHeaders now hs provider m"
    unfolding parseRateLimitHeaders_eq h by (rule refl)
qed

text \<open>The theorem of C8 at a response with both headers in mixed case, and at one
  without the remaining header.\<close>

theorem C8_rate_limit_snapshot_witness:
  "headers_get [(''X-RateLimit-Limit'', ''100''), (''X-RATELIMIT-REMAINING'', ''42'')] ''x-ratelimit-limit'' = Some ''100''
   \<and> headers_get [(''X-RateLimit-Limit'', ''100''), (''X-RATELIMIT-REMAINING'', ''42'')] ''x-ratelimit-remaining'' = Some ''42''
   \<and> parseRateLimitHeaders 7 [(''X-RateLimit-Limit'', ''100''), (''X-RATELIMIT-REMAINING'', ''42'')] ''venice'' Map.empty
       = [''venice'' \<mapsto> \<lparr> limit = Some 100, remaining = Some 42, reset = Some 60007 \<rparr>]
   \<and> headers_get [(''X-RateLimit-Limit'', ''100'')] ''x-ratelimit-remaining'' = None
   \<and> parseRateLimitHeaders 7 [(''X-RateLimit-Limit'', ''100'')] ''venice''
        [''venice'' \<mapsto> \<lparr> limit = Some 1, remaining = Some 1, reset = Some 1 \<rparr>]
       = [''venice'' \<mapsto> \<lparr> limit = Some 1, remaining = Some 1, reset = Some 1 \<rparr>]
   \<and> ''together'' \<noteq> ''venice''
   \<and> parseRateLimitHeaders 7 [(''X-RateLimit-Limit'', ''100''), (''X-RATELIMIT-REMAINING'', ''42'')] ''venice'' Map.empty ''together''
       = None"
proof -
  let ?hs = "[(''X-RateLimit-Limit'', ''100''), (''X-RATELIMIT-REMAINING'', ''42'')]"
  have l: "headers_get ?hs ''x-ratelimit-limit'' = Some ''100''" by code_simp
  have r: "headers_get ?hs ''x-ratelimit-remaining'' = Some ''42''" by code_simp
  have t: "headers_get ?hs ''x-ratelimit-reset'' = None" by code_simp
  have n: "headers_get [(''X-RateLimit-Limit'', ''100'')] ''x-ratelimit-remaining'' = None" by code_simp
  have p1: "parseInt ''100'' = Some 100" by code_simp
  have p2: "parseInt ''42'' = Some 42" by code_simp
  show ?thesis
    using C8_rate_limit_snapshot[of ?hs "''100''" "''42''" 7 "''venice''" Map.empty "''together''" ?hs]
          C8_rate_limit_snapshot[of "[(''X-RateLimit-Limit'', ''100'')]" "''100''" "''42''" 7 "''venice''"
             "[''venice'' \<mapsto> \<lparr> limit = Some 1, remaining = Some 1, reset = Some 1 \<rparr>]" "''together''"
             "[(''X-RateLimit-Limit'', ''100'')]"]
    by (simp add: l r t n p1 p2)
qed

section \<open>Line assembly\<close>

lemma split_newline_not_Nil [simp]: "split_newline s \<noteq> []"
  by (induction s) (auto split: list.splits)

lemma split_newline_append:
  "split_newline (a @ b)
     = butlast (split_newline a) @ split_newline (last (split_newline a) @ b)"
proof (induction a)
  case Nil
  show ?case by simp
next
  case (Cons c a)
  obtain x xs where sa: "split_newline a = x # xs"
    by (cases "split_newline a") simp_all
  show ?case
  proof (cases "c = CHR 0x0A")
    case True
    with Cons sa show ?thesis by simp
  next
    case False
    show ?thesis
    proof (cases xs)
      case Nil
      with Cons sa False show ?thesis by simp
    next
      case (Cons y ys)
      with Cons.IH sa False show ?thesis by simp
    qed
  qed
qed

lemma last_split_newline_no_newline: "CHR 0x0A \<notin> set (last (split_newline s))"
  by (induction s) (auto split: list.splits)

lemma split_newline_no_newline: "CHR 0x0A \<notin> set s \<Longrightarrow> split_newline s = [s]"
  by (induction s) auto

lemma complete_lines_append:
  "complete_lines (a @ b)
     = complete_lines a @ complete_lines (last (split_newline a) @ b)"
  unfolding complete_lines_def
  by (subst split_newline_append) (simp add: butlast_append)

lemma for_lines_append:
  "for_lines w (xs @ ys) =
     (case for_lines w xs of
        (y1, r1) \<Rightarrow>
          if r1 then (y1, True)
          else (case for_lines w ys of (y2, r2) \<Rightarrow> (y1 @ y2, r2)))"
proof (induction xs)
  case Nil
  show ?case by (simp split: prod.split)
next
  case (Cons line xs)
  obtain y1 r1 where a: "for_lines w xs = (y1, r1)" by (cases "for_lines w xs")
  obtain y2 r2 where b: "for_lines w ys = (y2, r2)" by (cases "for_lines w ys")
  from Cons a b have c: "for_lines w (xs @ ys) = (if r1 then (y1, True) else (y1 @ y2, r2))"
    by simp
  show ?case by (simp add: a b c)
qed

lemma read_loop_complete_lines:
  "CHR 0x0A \<notin> set buffer \<Longrightarrow>
   read_loop w buffer reads = fst (for_lines w (complete_lines (buffer @ concat reads)))"
proof (induction reads arbitrary: buffer)
  case Nil
  then show ?case by (simp add: complete_lines_def split_newline_no_newline)
next
  case (Cons chunk reads)
  have "read_loop w (last (split_newline (buffer @ chunk))) reads
      = fst (for_lines w (complete_lines (last (split_newline (buffer @ chunk)) @ concat reads)))"
    by (rule Cons.IH) (rule last_split_newline_no_newline)
  moreover have "complete_lines (buffer @ concat (chunk # reads))
      = complete_lines (buffer @ chunk)
        @ complete_lines (last (split_newline (buffer @ chunk)) @ concat reads)"
    using complete_lines_append[of "buffer @ chunk" "concat reads"] by simp
  ultimately show ?case
    by (simp add: for_lines_append complete_lines_def split: prod.splits)
qed

text \<open>
  The frontend normalizer yields the same values for every way of splitting a text
  into reads.
\<close>

lemma chatStream_chunking_invariant:
  assumes "ok res" "body res = Some reads" "body res' = Some reads'" "ok res'"
    and "concat reads = concat reads'"
  shows "chatStream w res = chatStream w res'"
  using assms by (simp add: chatStream_def read_loop_complete_lines)

lemma featherless_lines_append:
  "featherless_lines w (xs @ ys) = featherless_lines w xs @ featherless_lines w ys"
  by (induction xs) simp_all

lemma featherless_read_loop_complete_lines:
  "CHR 0x0A \<notin> set buffer \<Longrightarrow>
   featherless_read_loop w buffer reads = featherless_lines w (complete_lines (buffer @ concat reads))"
proof (induction reads arbitrary: buffer)
  case Nil
  then show ?case by (simp add: complete_lines_def split_newline_no_newline)
next
  case (Cons chunk reads)
  have "featherless_read_loop w (last (split_newline (buffer @ chunk))) reads
      = featherless_lines w (complete_lines (last (split_newline (buffer @ chunk)) @ concat reads))"
    by (rule Cons.IH) (rule last_split_newline_no_newline)
  moreover have "complete_lines (buffer @ concat (chunk # reads))
      = complete_lines (buffer @ chunk)
        @ complete_lines (last (split_newline (buffer @ chunk)) @ concat reads)"
    using complete_lines_append[of "buffer @ chunk" "concat reads"] by simp
  ultimately show ?case
    by (simp add: featherless_lines_append complete_lines_def)
qed

lemma for_lines_done: "for_lines w (''data: [DONE]'' # post) = ([], True)"
  by (simp add: startsWith_def)

lemma trim_done: "trim ''data: [DONE]'' = ''data: [DONE]''"
  by code_simp

lemma featherless_lines_done:
  "featherless_lines w (''data: [DONE]'' # post) = featherless_lines w post"
  by (simp add: trim_done)

lemma done_frontend:
  assumes "complete_lines (concat reads) = pre @ ''data: [DONE]'' # post"
  shows "read_loop w [] reads = fst (for_lines w pre)"
proof -
  have "read_loop w [] reads = fst (for_lines w (pre @ ''data: [DONE]'' # post))"
    using assms read_loop_complete_lines[of "[]" w reads] by simp
  then show ?thesis
    by (simp add: for_lines_append for_lines_done del: for_lines.simps split: prod.splits)
qed

lemma done_adapter:
  assumes "complete_lines (concat reads) = pre @ ''data: [DONE]'' # post"
  shows "featherless_read_loop w [] reads = featherless_lines w pre @ featherless_lines w post"
  using assms featherless_read_loop_complete_lines[of "[]" w reads]
  by (simp add: featherless_lines_append featherless_lines_done del: featherless_lines.simps)


section \<open>The terminal sentinel\<close>

lemma stream_response_simps:
  "ok (stream_response reads)" "body (stream_response reads) = Some reads"
  "status (stream_response reads) = 200"
  by (simp_all add: stream_response_def ok_def)

text \<open>
  Claim C4, as stated, fails in the Featherless adapter: a read that holds the complete
  line \<open>data: [DONE]\<close> followed by a complete data line still yields the chunk of the
  second line.
\<close>

theorem C4_adapter_continues_counterexample:
  "complete_lines (concat [''data: [DONE]'' @ newline @ chunk_line @ newline])
     = [''data: [DONE]'', chunk_line]
   \<and> featherless_chatStream (constant_world no_body_response no_keys_set)
        (stream_response [''data: [DONE]'' @ newline @ chunk_line @ newline])
     = Inr [\<lparr> chunk_id = JStr ''c1'', chunk_provider = ''featherless'', chunk_model = JStr ''m'',
               chunk_choices = [\<lparr> choice_index = JNum 0, choice_role = JUndefined,
                                  choice_content = JStr ''Hi'', choice_finishReason = JNull \<rparr>] \<rparr>]"
  by code_simp

text \<open>
  Claim C4, amended. Let the complete lines of a stream hold the line \<open>data: [DONE]\<close>.
  The frontend's \<open>chatStream\<close> yields what the lines before the sentinel yield and
  nothing after it, however the text is split into reads. The Featherless adapter's
  \<open>chatStream\<close> yields nothing for the sentinel line itself and goes on: it yields
  the chunks of the lines before it and of the lines after it.
\<close>

theorem C4_done_sentinel:
  assumes "ok res" "body res = Some reads"
    and "complete_lines (concat reads) = pre @ ''data: [DONE]'' # post"
  shows "chatStream w res = Inr (fst (for_lines w pre))
    \<and> featherless_chatStream w res = Inr (featherless_lines w pre @ featherless_lines w post)"
  using assms by (simp add: chatStream_def featherless_chatStream_def done_frontend done_adapter)

text \<open>The theorem of C4 at a stream of three lines, the sentinel in the middle, split
  inside a line.\<close>

theorem C4_done_sentinel_witness:
  "ok (stream_response [hi_line @ newline @ ''da'', ''ta: [DONE]'' @ newline @ hi_line @ newline])
   \<and> body (stream_response [hi_line @ newline @ ''da'', ''ta: [DONE]'' @ newline @ hi_line @ newline])
       = Some [hi_line @ newline @ ''da'', ''ta: [DONE]'' @ newline @ hi_line @ newline]
   \<and> complete_lines (concat [hi_line @ newline @ ''da'', ''ta: [DONE]'' @ newline @ hi_line @ newline])
       = [hi_line] @ ''data: [DONE]'' # [hi_line]
   \<and> chatStream (constant_world no_body_response no_keys_set)
        (stream_response [hi_line @ newline @ ''da'', ''ta: [DONE]'' @ newline @ hi_line @ newline])
       = Inr [JStr ''Hi'']
   \<and> featherless_chatStream (constant_world no_body_response no_keys_set)
        (stream_response [hi_line @ newline @ ''da'', ''ta: [DONE]'' @ newline @ hi_line @ newline])
       = Inr (featherless_lines (constant_world no_body_response no_keys_set) [hi_line]
               @ featherless_lines (constant_world no_body_response no_keys_set) [hi_line])"
proof -
  let ?reads = "[hi_line @ newline @ ''da'', ''ta: [DONE]'' @ newline @ hi_line @ newline]"
  let ?w = "constant_world no_body_response no_keys_set"
  have lines: "complete_lines (concat ?reads) = [hi_line] @ ''data: [DONE]'' # [hi_line]"
    by code_simp
  have yields: "fst (for_lines ?w [hi_line]) = [JStr ''Hi'']"
    by code_simp
  show ?thesis
    using C4_done_sentinel[of "stream_response ?reads" ?reads "[hi_line]" "[hi_line]" ?w]
    by (simp only: stream_response_simps lines yields simp_thms)
qed

section \<open>Read boundaries\<close>

text \<open>
  Claim C5 fails on the server's streaming proxy. The upstream text
  \<open>data: {"choices":[{"delta":{"content":"Hi"}}]}\n\n: OPENROUTER PROCESSING\n\n\<close>
  delivered in one read is dropped whole, so the client yields nothing; delivered in two
  reads, split after the data frame, its first read is forwarded and the client yields
  \<open>Hi\<close>.
\<close>

theorem C5_proxy_chunk_filter_divergence:
  "concat [hi_line @ newline @ newline @ keep_alive_line @ newline @ newline]
     = concat [hi_line @ newline @ newline, keep_alive_line @ newline @ newline]
   \<and> fst (chat_completions
        (constant_world (stream_response [hi_line @ newline @ newline @ keep_alive_line @ newline @ newline]) all_keys_set)
        ''openrouter'' True initial_state)
     = EventStream ''openrouter'' []
   \<and> chatStream (constant_world no_body_response no_keys_set) (stream_response []) = Inr []
   \<and> fst (chat_completions
        (constant_world (stream_response [hi_line @ newline @ newline, keep_alive_line @ newline @ newline]) all_keys_set)
        ''openrouter'' True initial_state)
     = EventStream ''openrouter'' [hi_line @ newline @ newline]
   \<and> chatStream (constant_world no_body_response no_keys_set) (stream_response [hi_line @ newline @ newline])
     = Inr [JStr ''Hi'']"
proof -
  let ?one = "[hi_line @ newline @ newline @ keep_alive_line @ newline @ newline]"
  let ?two = "[hi_line @ newline @ newline, keep_alive_line @ newline @ newline]"
  have ret: "fetchWithRetry (constant_world (stream_response reads) all_keys_set)
               url ''openrouter'' 0 initial_state
             = (Some (stream_response reads),
                after_response (constant_world (stream_response reads) all_keys_set) ''openrouter''
                  (stream_response reads) initial_state)" for reads url
    by (intro fetchWithRetry_return)
       (simp_all add: constant_world_simps retry_delay_def stream_response_simps RETRY_STATUS_CODES_def)
  have p: "PROVIDERS ''openrouter'' = Some ''https://openrouter.ai/api/v1''"
    by (simp add: PROVIDERS_def)
  have f1: "List.map_filter read_push ?one = []" by code_simp
  have f2: "List.map_filter read_push ?two = [hi_line @ newline @ newline]" by code_simp
  have c1: "chatStream (constant_world no_body_response no_keys_set) (stream_response []) = Inr []"
    by (simp add: chatStream_def stream_response_simps)
  have c2: "chatStream (constant_world no_body_response no_keys_set) (stream_response [hi_line @ newline @ newline])
     = Inr [JStr ''Hi'']"
    by code_simp
  have cc: "fst (chat_completions (constant_world (stream_response reads) all_keys_set)
                  ''openrouter'' True initial_state)
            = EventStream ''openrouter'' (List.map_filter read_push reads)" for reads
    by (simp add: chat_completions_def p ret stream_response_simps del: map_filter_simps)
  have cat: "concat ?one = concat ?two" by simp
  show ?thesis
    by (intro conjI) (simp_all only: cat cc f1 f2 c1 c2)
qed

section \<open>A streaming request without a response body\<close>

lemma no_body_response_simps:
  "ok no_body_response" "body no_body_response = None" "status no_body_response = 204"
  by (simp_all add: no_body_response_def ok_def)

lemma chat_completions_no_body:
  assumes "PROVIDERS provider = Some baseUrl"
    and "fetchWithRetry w (baseUrl @ ''/chat/completions'') provider 0 s = (Some res, s')"
    and "ok res" "body res = None"
  shows "chat_completions w provider isStreaming s =
           (case JSON_parse w [] of None \<Rightarrow> RequestFailed provider | Some data \<Rightarrow> JsonBody data, s')"
  using assms
  by (simp add: chat_completions_def response_json_def body_text_def split: option.splits)

text \<open>
  Claim C6, as stated, fails on the server route: a streaming request whose upstream
  response is ok and has no body is answered exactly as the same request without the
  streaming flag, through the branch that decodes JSON, with the 500 of the \<open>catch\<close>.
\<close>

theorem C6_server_route_counterexample:
  "ok no_body_response \<and> body no_body_response = None
   \<and> fst (chat_completions (constant_world no_body_response all_keys_set) ''openrouter'' True initial_state)
       = RequestFailed ''openrouter''
   \<and> chat_completions (constant_world no_body_response all_keys_set) ''openrouter'' True initial_state
       = chat_completions (constant_world no_body_response all_keys_set) ''openrouter'' False initial_state"
proof -
  let ?w = "constant_world no_body_response all_keys_set"
  have ret: "fetchWithRetry ?w (''https://openrouter.ai/api/v1'' @ ''/chat/completions'') ''openrouter'' 0 initial_state
             = (Some no_body_response, after_response ?w ''openrouter'' no_body_response initial_state)"
    by (intro fetchWithRetry_return)
       (simp_all add: constant_world_simps retry_delay_def no_body_response_simps RETRY_STATUS_CODES_def)
  have p: "PROVIDERS ''openrouter'' = Some ''https://openrouter.ai/api/v1''"
    by (simp add: PROVIDERS_def)
  have e: "JSON_parse ?w [] = None"
    by (simp add: constant_world_simps example_parse_def)
  show ?thesis
    using chat_completions_no_body[OF p ret no_body_response_simps(1,2)]
    by (simp add: no_body_response_simps e)
qed

text \<open>
  Claim C6, amended. When the response is ok and carries no body, the frontend's
  \<open>chatStream\<close> fails with the error 'No response body' and the Featherless adapter's
  \<open>chatStream\<close> with 'No response body for streaming'. The server route has no such
  check: with or without the streaming flag it decodes the body as JSON, and as an
  absent body is not JSON it answers with the 500 of its \<open>catch\<close>.
\<close>

theorem C6_missing_stream_body:
  assumes "ok res" "body res = None"
  shows "chatStream w res = Inl NoResponseBody
    \<and> featherless_chatStream w res = Inl NoResponseBodyForStreaming
    \<and> (PROVIDERS provider = Some baseUrl
         \<and> fetchWithRetry w (baseUrl @ ''/chat/completions'') provider 0 s = (Some res, s') \<longrightarrow>
           chat_completions w provider True s = chat_completions w provider False s
         \<and> (JSON_parse w [] = None \<longrightarrow>
              chat_completions w provider True s = (RequestFailed provider, s')))"
proof (intro conjI impI)
  show "chatStream w res = Inl NoResponseBody"
    using assms by (simp add: chatStream_def)
  show "featherless_chatStream w res = Inl NoResponseBodyForStreaming"
    using assms by (simp add: featherless_chatStream_def)
next
  assume a: "PROVIDERS provider = Some baseUrl
         \<and> fetchWithRetry w (baseUrl @ ''/chat/completions'') provider 0 s = (Some res, s')"
  then show "chat_completions w provider True s = chat_completions w provider False s"
    using chat_completions_no_body[of provider baseUrl w s res s'] assms by simp
  assume "JSON_parse w [] = None"
  then show "chat_completions w provider True s = (RequestFailed provider, s')"
    using a chat_completions_no_body[of provider baseUrl w s res s' True] assms by simp
qed

text \<open>The theorem of C6 at an upstream that answers 204, without a body.\<close>

theorem C6_missing_stream_body_witness:
  "ok no_body_response \<and> body no_body_response = None
   \<and> chatStream (constant_world no_body_response all_keys_set) no_body_response = Inl NoResponseBody
   \<and> featherless_chatStream (constant_world no_body_response all_keys_set) no_body_response
       = Inl NoResponseBodyForStreaming
   \<and> PROVIDERS ''openrouter'' = Some ''https://openrouter.ai/api/v1''
   \<and> fetchWithRetry (constant_world no_body_response all_keys_set)
        (''https://openrouter.ai/api/v1'' @ ''/chat/completions'') ''openrouter'' 0 initial_state
       = (Some no_body_response,
          after_response (constant_world no_body_response all_keys_set) ''openrouter'' no_body_response initial_state)
   \<and> JSON_parse (constant_world no_body_response all_keys_set) [] = None
   \<and> chat_completions (constant_world no_body_response all_keys_set) ''openrouter'' True initial_state
       = (RequestFailed ''openrouter'',
          after_response (constant_world no_body_response all_keys_set) ''openrouter'' no_body_response initial_state)"
proof -
  let ?w = "constant_world no_body_response all_keys_set"
  have ret: "fetchWithRetry ?w url ''openrouter'' 0 initial_state
             = (Some no_body_response, after_response ?w ''openrouter'' no_body_response initial_state)" for url
    by (intro fetchWithRetry_return)
       (simp_all add: constant_world_simps retry_delay_def no_body_response_simps RETRY_STATUS_CODES_def)
  have p: "PROVIDERS ''openrouter'' = Some ''https://openrouter.ai/api/v1''"
    by (simp add: PROVIDERS_def)
  have e: "JSON_parse ?w [] = None"
    by (simp add: constant_world_simps example_parse_def)
  show ?thesis
    using C6_missing_stream_body[OF no_body_response_simps(1,2), of ?w "''openrouter''"
            "''https://openrouter.ai/api/v1''" initial_state
            "after_response ?w ''openrouter'' no_body_response initial_state"]
    by (auto simp: no_body_response_simps ret p e)
qed

section \<open>Provider failover: lemmas\<close>

lemma state_before_0 [simp]: "state_before w chain s 0 = s"
  by (simp add: state_before_def)

lemma state_before_Suc:
  "state_before w (entry # chain) s (Suc i) = state_before w chain (snd (try_entry w entry s)) i"
  by (simp add: state_before_def)

text \<open>
  The loop answers 503 exactly when every entry, tried in order from the state its
  predecessors left, does not serve; the answer is then the fixed text.
\<close>

lemma failover_loop_unavailable_iff:
  "(\<exists>msg. fst (failover_loop w chain s) = ServiceUnavailable msg)
   \<longleftrightarrow> (\<forall>i<length chain. fst (try_entry w (chain ! i) (state_before w chain s i)) = None)"
proof (induction chain arbitrary: s)
  case Nil
  show ?case by simp
next
  case (Cons entry chain)
  obtain r s' where t: "try_entry w entry s = (r, s')" by (cases "try_entry w entry s")
  show ?case
  proof (cases r)
    case None
    have "(\<forall>i<length (entry # chain). fst (try_entry w ((entry # chain) ! i) (state_before w (entry # chain) s i)) = None)
      \<longleftrightarrow> (\<forall>i<length chain. fst (try_entry w (chain ! i) (state_before w chain s' i)) = None)"
      using t None by (auto simp: All_less_Suc2 state_before_Suc)
    then show ?thesis using Cons.IH[of s'] t None by simp
  next
    case (Some data)
    have "\<not> (\<forall>i<length (entry # chain). fst (try_entry w ((entry # chain) ! i) (state_before w (entry # chain) s i)) = None)"
      using t Some by (auto intro: exI[of _ 0])
    then show ?thesis using t Some by simp
  qed
qed

lemma failover_loop_message:
  "fst (failover_loop w chain s) = ServiceUnavailable msg \<Longrightarrow>
   msg = ''All providers in failover chain failed''"
proof (induction chain arbitrary: s)
  case Nil
  then show ?case by simp
next
  case (Cons entry chain)
  then show ?case by (auto split: prod.splits option.splits)
qed

lemma try_entry_None_iff:
  "fst (try_entry w entry s) = None \<longleftrightarrow>
     PROVIDERS (fst entry) = None
   \<or> \<not> configured w (fst entry)
   \<or> (\<exists>baseUrl. PROVIDERS (fst entry) = Some baseUrl \<and>
        (case fst (fetchWithRetry w (baseUrl @ ''/chat/completions'') (fst entry) 0 s) of
           None \<Rightarrow> True
         | Some response \<Rightarrow> \<not> ok response \<or> response_json w response = None))"
  by (auto simp: try_entry_def split: option.splits prod.splits)

lemma try_entry_unconfigured:
  "process_env w = no_keys_set \<Longrightarrow> try_entry w entry s = (None, s)"
  by (simp add: try_entry_def configured_def no_keys_set_def split: option.splits)

lemma failover_loop_unconfigured:
  "process_env w = no_keys_set \<Longrightarrow>
   failover_loop w chain s = (ServiceUnavailable ''All providers in failover chain failed'', s)"
  by (induction chain) (simp_all add: try_entry_unconfigured)

lemma FAILOVER_CHAINS_simps:
  "FAILOVER_CHAINS ''gpt-4-class''
     = Some [(''openrouter'', ''openai/gpt-4o''),
             (''together'', ''meta-llama/Llama-3.3-70B-Instruct-Turbo'')]"
  "FAILOVER_CHAINS ''claude-class''
     = Some [(''openrouter'', ''anthropic/claude-3-sonnet''), (''venice'', ''qwen3-235b'')]"
  by (simp_all add: FAILOVER_CHAINS_def)

text \<open>
  Claim C7, as stated, fails: the answer to an exhausted chain does not say which
  chain it was. Two different model classes with different chains, both exhausted,
  get the same answer.
\<close>

theorem C7_same_answer_counterexample:
  "FAILOVER_CHAINS ''gpt-4-class'' \<noteq> FAILOVER_CHAINS ''claude-class''
   \<and> failover_chat_completions (constant_world no_body_response no_keys_set) ''gpt-4-class'' initial_state
       = (ServiceUnavailable ''All providers in failover chain failed'', initial_state)
   \<and> failover_chat_completions (constant_world no_body_response no_keys_set) ''claude-class'' initial_state
       = failover_chat_completions (constant_world no_body_response no_keys_set) ''gpt-4-class'' initial_state"
  by (simp add: failover_chat_completions_def FAILOVER_CHAINS_simps failover_loop_unconfigured
        constant_world_simps del: failover_loop.simps)

text \<open>
  Claim C7, amended. For a known model class the failover route answers 503 exactly
  when every entry of the chain, tried in order, was skipped (no configuration or no
  credentials) or failed (a rejected dispatch, a response that is not ok, a body that is
  not JSON). The answer is the fixed text 'All providers in failover chain failed': it
  carries no entry's error and does not name the chain.
\<close>

theorem C7_failover_exhaustion:
  assumes "FAILOVER_CHAINS modelClass = Some chain"
  shows "((\<exists>msg. fst (failover_chat_completions w modelClass s) = ServiceUnavailable msg)
          \<longleftrightarrow> (\<forall>i<length chain. fst (try_entry w (chain ! i) (state_before w chain s i)) = None))
    \<and> (fst (failover_chat_completions w modelClass s) = ServiceUnavailable msg \<longrightarrow>
          msg = ''All providers in failover chain failed'')
    \<and> (fst (try_entry w entry s) = None \<longleftrightarrow>
          PROVIDERS (fst entry) = None
        \<or> \<not> configured w (fst entry)
        \<or> (\<exists>baseUrl. PROVIDERS (fst entry) = Some baseUrl \<and>
             (case fst (fetchWithRetry w (baseUrl @ ''/chat/completions'') (fst entry) 0 s) of
                None \<Rightarrow> True
              | Some response \<Rightarrow> \<not> ok response \<or> response_json w response = None)))"
  using assms failover_loop_unavailable_iff[of w chain s] failover_loop_message[of w chain s msg]
    try_entry_None_iff[of w entry s]
  by (simp add: failover_chat_completions_def)


lemma try_entry_not_ok:
  assumes "PROVIDERS (fst entry) = Some baseUrl"
  shows "try_entry (constant_world (cold_response 401) all_keys_set) entry s
         = (None, after_response (constant_world (cold_response 401) all_keys_set) (fst entry)
                    (cold_response 401) s)"
proof -
  let ?w = "constant_world (cold_response 401) all_keys_set"
  have "fetchWithRetry ?w (baseUrl @ ''/chat/completions'') (fst entry) 0 s
        = (Some (cold_response 401), after_response ?w (fst entry) (cold_response 401) s)"
    by (intro fetchWithRetry_return)
       (simp_all add: constant_world_simps retry_delay_def cold_response_simps RETRY_STATUS_CODES_def)
  then show ?thesis
    using assms
    by (simp add: try_entry_def configured_def constant_world_simps all_keys_set_def ok_def
          cold_response_simps)
qed

text \<open>The theorem of C7 at the chain of \<open>claude-class\<close>, every provider answering 401.\<close>

theorem C7_failover_exhaustion_witness:
  "FAILOVER_CHAINS ''claude-class''
     = Some [(''openrouter'', ''anthropic/claude-3-sonnet''), (''venice'', ''qwen3-235b'')]
   \<and> fst (try_entry (constant_world (cold_response 401) all_keys_set)
            (''openrouter'', ''anthropic/claude-3-sonnet'') initial_state) = None
   \<and> fst (try_entry (constant_world (cold_response 401) all_keys_set)
            (''venice'', ''qwen3-235b'')
            (state_before (constant_world (cold_response 401) all_keys_set)
               [(''openrouter'', ''anthropic/claude-3-sonnet''), (''venice'', ''qwen3-235b'')]
               initial_state 1)) = None
   \<and> fst (failover_chat_completions (constant_world (cold_response 401) all_keys_set)
            ''claude-class'' initial_state)
       = ServiceUnavailable ''All providers in failover chain failed''"
proof -
  let ?w = "constant_world (cold_response 401) all_keys_set"
  let ?chain = "[(''openrouter'', ''anthropic/claude-3-sonnet''), (''venice'', ''qwen3-235b'')]"
  have p1: "PROVIDERS (fst (''openrouter'', ''anthropic/claude-3-sonnet'')) = Some ''https://openrouter.ai/api/v1''"
    by (simp add: PROVIDERS_def)
  have p2: "PROVIDERS (fst (''venice'', ''qwen3-235b'')) = Some ''https://api.venice.ai/api/v1''"
    by (simp add: PROVIDERS_def)
  have e1: "fst (try_entry ?w (''openrouter'', ''anthropic/claude-3-sonnet'') s) = None" for s
    using try_entry_not_ok[OF p1] by simp
  have e2: "fst (try_entry ?w (''venice'', ''qwen3-235b'') s) = None" for s
    using try_entry_not_ok[OF p2] by simp
  have all: "\<forall>i<length ?chain. fst (try_entry ?w (?chain ! i) (state_before ?w ?chain initial_state i)) = None"
    by (simp add: All_less_Suc2 e1 e2)
  from C7_failover_exhaustion[OF FAILOVER_CHAINS_simps(2), of ?w initial_state] all
  obtain msg where m: "fst (failover_chat_completions ?w ''claude-class'' initial_state) = ServiceUnavailable msg"
    by blast
  with C7_failover_exhaustion[OF FAILOVER_CHAINS_simps(2), of ?w initial_state msg]
  have "msg = ''All providers in failover chain failed''" by blast
  with m show ?thesis
    by (simp add: FAILOVER_CHAINS_simps e1 e2)
qed

end
